theory Spec2Isabelle
  imports Main "HOL-Library.Word"
begin

unbundle bit_operations_syntax

section \<open>Bytes, big-endian integers and UTF-8\<close>

type_synonym byte = "8 word"

text \<open>
  \<^verbatim>\<open>binary.BigEndian.PutUint16/Uint16/PutUint64/Uint64\<close> of the Go standard library,
  written out byte by byte as the library does (\<^verbatim>\<open>b[0] = byte(v >> 8)\<close>, ...).
\<close>

definition putUint16 :: "16 word \<Rightarrow> byte list" where
  "putUint16 v = [ucast (drop_bit 8 v), ucast v]"

definition getUint16 :: "byte list \<Rightarrow> 16 word" where
  "getUint16 b = (ucast (b ! 1) OR push_bit 8 (ucast (b ! 0)))"

definition putUint64 :: "64 word \<Rightarrow> byte list" where
  "putUint64 v =
     [ucast (drop_bit 56 v), ucast (drop_bit 48 v), ucast (drop_bit 40 v), ucast (drop_bit 32 v),
      ucast (drop_bit 24 v), ucast (drop_bit 16 v), ucast (drop_bit 8 v), ucast v]"

definition getUint64 :: "byte list \<Rightarrow> 64 word" where
  "getUint64 b =
     (ucast (b ! 7) OR push_bit 8 (ucast (b ! 6)) OR push_bit 16 (ucast (b ! 5)) OR
      push_bit 24 (ucast (b ! 4)) OR push_bit 32 (ucast (b ! 3)) OR push_bit 40 (ucast (b ! 2)) OR
      push_bit 48 (ucast (b ! 1)) OR push_bit 56 (ucast (b ! 0)))"

text \<open>
  \<^verbatim>\<open>utf8.Valid\<close> of the Go standard library: the well-formed byte sequences of
  RFC 3629 (no overlong forms, no surrogates, nothing above U+10FFFF), as the
  library's acceptance ranges list them.
\<close>

definition isCont :: "byte \<Rightarrow> bool" where
  "isCont b = (0x80 \<le> b \<and> b \<le> 0xBF)"

fun utf8Valid :: "byte list \<Rightarrow> bool" where
  "utf8Valid [] = True"
| "utf8Valid (b0 # bs) =
     (if b0 < 0x80 then utf8Valid bs
      else if 0xC2 \<le> b0 \<and> b0 \<le> 0xDF then
        (case bs of b1 # r \<Rightarrow> isCont b1 \<and> utf8Valid r | _ \<Rightarrow> False)
      else if b0 = 0xE0 then
        (case bs of b1 # b2 # r \<Rightarrow> 0xA0 \<le> b1 \<and> b1 \<le> 0xBF \<and> isCont b2 \<and> utf8Valid r | _ \<Rightarrow> False)
      else if (0xE1 \<le> b0 \<and> b0 \<le> 0xEC) \<or> b0 = 0xEE \<or> b0 = 0xEF then
        (case bs of b1 # b2 # r \<Rightarrow> isCont b1 \<and> isCont b2 \<and> utf8Valid r | _ \<Rightarrow> False)
      else if b0 = 0xED then
        (case bs of b1 # b2 # r \<Rightarrow> 0x80 \<le> b1 \<and> b1 \<le> 0x9F \<and> isCont b2 \<and> utf8Valid r | _ \<Rightarrow> False)
      else if b0 = 0xF0 then
        (case bs of b1 # b2 # b3 # r \<Rightarrow>
           0x90 \<le> b1 \<and> b1 \<le> 0xBF \<and> isCont b2 \<and> isCont b3 \<and> utf8Valid r | _ \<Rightarrow> False)
      else if 0xF1 \<le> b0 \<and> b0 \<le> 0xF3 then
        (case bs of b1 # b2 # b3 # r \<Rightarrow> isCont b1 \<and> isCont b2 \<and> isCont b3 \<and> utf8Valid r | _ \<Rightarrow> False)
      else if b0 = 0xF4 then
        (case bs of b1 # b2 # b3 # r \<Rightarrow>
           0x80 \<le> b1 \<and> b1 \<le> 0x8F \<and> isCont b2 \<and> isCont b3 \<and> utf8Valid r | _ \<Rightarrow> False)
      else False)"

section \<open>Frame codec (package websocket: opcodes, errors, readFrame, writeFrame, applyMask)\<close>

datatype error =
    ErrProtocolError
  | ErrInvalidUTF8
  | ErrFrameTooLarge
  | ErrReservedBits
  | ErrInvalidOpcode
  | ErrControlFragmented
  | ErrControlTooLarge
  | ErrUnexpectedContinuation
  | ErrMaskRequired
  | ErrMaskUnexpected
  | ErrInvalidMethod
  | ErrMissingUpgrade
  | ErrMissingConnection
  | ErrMissingSecKey
  | ErrInvalidVersion
  | ErrOriginDenied
  | ErrHijackFailed
  | ErrClosed
  | ErrInvalidMessageType
  | ErrMessageTooLarge
  | ErrIO string

definition opcodeContinuation :: byte where "opcodeContinuation = 0x0"
definition opcodeText :: byte where "opcodeText = 0x1"
definition opcodeBinary :: byte where "opcodeBinary = 0x2"
definition opcodeClose :: byte where "opcodeClose = 0x8"
definition opcodePing :: byte where "opcodePing = 0x9"
definition opcodePong :: byte where "opcodePong = 0xA"

lemmas opcode_defs =
  opcodeContinuation_def opcodeText_def opcodeBinary_def opcodeClose_def opcodePing_def
  opcodePong_def

definition isControlFrame :: "byte \<Rightarrow> bool" where
  "isControlFrame op = (op AND 0x08 \<noteq> 0)"

definition isValidOpcode :: "byte \<Rightarrow> bool" where
  "isValidOpcode op =
     (op = opcodeContinuation \<or> op = opcodeText \<or> op = opcodeBinary \<or>
      op = opcodeClose \<or> op = opcodePing \<or> op = opcodePong)"

definition maxControlPayload :: nat where "maxControlPayload = 125"
definition maxFramePayload :: nat where "maxFramePayload = 32 * 1024 * 1024"
definition payloadLen7Bit :: nat where "payloadLen7Bit = 125"
definition payloadLen16Bit :: byte where "payloadLen16Bit = 126"
definition payloadLen64Bit :: byte where "payloadLen64Bit = 127"

text \<open>
  The frame. The masking key \<^verbatim>\<open>[4]byte\<close> is a quadruple; the payload \<^verbatim>\<open>[]byte\<close> is a list,
  so a nil payload and an empty one are the same value here.
\<close>

type_synonym mask_key = "byte \<times> byte \<times> byte \<times> byte"

record frame =
  fin :: bool
  rsv1 :: bool
  rsv2 :: bool
  rsv3 :: bool
  opcode :: byte
  masked :: bool
  maskKey :: mask_key
  payload :: "byte list"

text \<open>\<^verbatim>\<open>mask[i%4]\<close> on the 4-byte array.\<close>

fun maskAt :: "mask_key \<Rightarrow> nat \<Rightarrow> byte" where
  "maskAt (k0, k1, k2, k3) i =
     (if i mod 4 = 0 then k0 else if i mod 4 = 1 then k1 else if i mod 4 = 2 then k2 else k3)"

text \<open>\<^verbatim>\<open>for i := range data { data[i] ^= mask[i%4] }\<close>, the index carried along.\<close>

fun applyMaskFrom :: "nat \<Rightarrow> byte list \<Rightarrow> mask_key \<Rightarrow> byte list" where
  "applyMaskFrom i [] k = []"
| "applyMaskFrom i (b # bs) k = (b XOR maskAt k i) # applyMaskFrom (Suc i) bs k"

definition applyMask :: "byte list \<Rightarrow> mask_key \<Rightarrow> byte list" where
  "applyMask data k = applyMaskFrom 0 data k"

text \<open>
  The buffered reader is the list of inbound bytes not yet consumed, all that arrive
  before the stream ends. \<^verbatim>\<open>io.ReadFull(r, buf)\<close> with \<open>n = len(buf)\<close> either fills the
  buffer or fails at the end of the stream; a failed read has consumed whatever was left.
\<close>

definition readFull :: "nat \<Rightarrow> byte list \<Rightarrow> (byte list \<times> byte list) option" where
  "readFull n r = (if length r < n then None else Some (take n r, drop n r))"

text \<open>Step 2 of \<^verbatim>\<open>readFrame\<close>: the 7-bit, 16-bit or 64-bit payload length.\<close>

definition readPayloadLen :: "byte \<Rightarrow> byte list \<Rightarrow> (error + 64 word) \<times> byte list" where
  "readPayloadLen len7 r =
     (if len7 = payloadLen16Bit then
        (case readFull 2 r of
           None \<Rightarrow> (Inl (ErrIO ''read 16-bit length''), [])
         | Some (buf, r') \<Rightarrow> (Inr (ucast (getUint16 buf)), r'))
      else if len7 = payloadLen64Bit then
        (case readFull 8 r of
           None \<Rightarrow> (Inl (ErrIO ''read 64-bit length''), [])
         | Some (buf, r') \<Rightarrow>
             (if getUint64 buf AND push_bit 63 1 \<noteq> 0 then (Inl ErrProtocolError, r')
              else (Inr (getUint64 buf), r')))
      else (Inr (ucast len7), r))"

text \<open>Steps 3 to 6 of \<^verbatim>\<open>readFrame\<close>: masking key, payload, unmasking, UTF-8.\<close>

definition readBody :: "frame \<Rightarrow> 64 word \<Rightarrow> byte list \<Rightarrow> (error + frame) \<times> byte list" where
  "readBody f payloadLen r =
     (case (if masked f then
              (case readFull 4 r of
                 None \<Rightarrow> None
               | Some (k, r') \<Rightarrow> Some ((k ! 0, k ! 1, k ! 2, k ! 3), r'))
            else Some (maskKey f, r)) of
        None \<Rightarrow> (Inl (ErrIO ''read mask''), [])
      | Some (key, r1) \<Rightarrow>
          (case (if payloadLen > 0 then readFull (unat payloadLen) r1 else Some ([], r1)) of
             None \<Rightarrow> (Inl (ErrIO ''read payload''), [])
           | Some (p, r2) \<Rightarrow>
               (let p' = (if payloadLen > 0 \<and> masked f then applyMask p key else p) in
                if opcode f = opcodeText \<and> \<not> utf8Valid p' then (Inl ErrInvalidUTF8, r2)
                else (Inr (f\<lparr>maskKey := key, payload := p'\<rparr>), r2))))"

definition readFrame :: "byte list \<Rightarrow> (error + frame) \<times> byte list" where
  "readFrame r =
     (case readFull 2 r of
        None \<Rightarrow> (Inl (ErrIO ''read header''), [])
      | Some (header, r1) \<Rightarrow>
          (let f = \<lparr> fin = (header ! 0 AND 0x80 \<noteq> 0),
                     rsv1 = (header ! 0 AND 0x40 \<noteq> 0),
                     rsv2 = (header ! 0 AND 0x20 \<noteq> 0),
                     rsv3 = (header ! 0 AND 0x10 \<noteq> 0),
                     opcode = header ! 0 AND 0x0F,
                     masked = (header ! 1 AND 0x80 \<noteq> 0),
                     maskKey = (0, 0, 0, 0),
                     payload = [] \<rparr>
           in if \<not> isValidOpcode (opcode f) then (Inl ErrInvalidOpcode, r1)
              else if rsv1 f \<or> rsv2 f \<or> rsv3 f then (Inl ErrReservedBits, r1)
              else if isControlFrame (opcode f) \<and> \<not> fin f then (Inl ErrControlFragmented, r1)
              else
                (case readPayloadLen (header ! 1 AND 0x7F) r1 of
                   (Inl e, r2) \<Rightarrow> (Inl e, r2)
                 | (Inr payloadLen, r2) \<Rightarrow>
                     (if isControlFrame (opcode f) \<and> unat payloadLen > maxControlPayload
                      then (Inl ErrControlTooLarge, r2)
                      else if unat payloadLen > maxFramePayload then (Inl ErrFrameTooLarge, r2)
                      else readBody f payloadLen r2))))"

text \<open>
  The buffered writer: \<open>out\<close> is what has reached the wire, \<open>failing\<close> says that the
  underlying stream rejects writes. Every \<^verbatim>\<open>w.Write\<close> and the final \<^verbatim>\<open>w.Flush\<close> of the
  source is a branch that fails on a failing stream; nothing is emitted then. The buffer
  itself is not modelled: in the source a rejecting stream is reported by the call that
  first has to empty the buffer (a write that overflows it, else the flush), so the name of
  the step in an \<open>ErrIO\<close> from a write only says that the frame was not sent.
\<close>

record writer =
  out :: "byte list"
  failing :: bool

definition wWrite :: "string \<Rightarrow> byte list \<Rightarrow> writer \<Rightarrow> error + writer" where
  "wWrite what bs w = (if failing w then Inl (ErrIO what) else Inr (w\<lparr>out := out w @ bs\<rparr>))"

definition thenW :: "error + writer \<Rightarrow> (writer \<Rightarrow> error + writer) \<Rightarrow> error + writer" where
  "thenW r k = (case r of Inl e \<Rightarrow> Inl e | Inr w \<Rightarrow> k w)"

definition header0 :: "frame \<Rightarrow> byte" where
  "header0 f =
     (if fin f then 0x80 else 0) OR (if rsv1 f then 0x40 else 0) OR (if rsv2 f then 0x20 else 0) OR
     (if rsv3 f then 0x10 else 0) OR (opcode f AND 0x0F)"

definition header1 :: "frame \<Rightarrow> byte" where
  "header1 f =
     (let payloadLen = length (payload f) in
      (if masked f then 0x80 else 0) OR
      (if payloadLen \<le> payloadLen7Bit then of_nat payloadLen
       else if payloadLen \<le> 0xFFFF then payloadLen16Bit
       else payloadLen64Bit))"

text \<open>
  Steps 1 to 6, which \<^verbatim>\<open>writeFrame\<close> and \<^verbatim>\<open>writeFrameNoValidation\<close> share word for
  word: header, extended length, masking key, payload (masked on a copy), flush.
\<close>

definition writeFrameNoValidation :: "writer \<Rightarrow> frame \<Rightarrow> error + writer" where
  "writeFrameNoValidation w f =
     (let payloadLen = length (payload f) in
      thenW (thenW (thenW (thenW (wWrite ''write header'' [header0 f, header1 f] w)
        (\<lambda>w. if payloadLen > payloadLen7Bit \<and> payloadLen \<le> 0xFFFF
              then wWrite ''write 16-bit length'' (putUint16 (of_nat payloadLen)) w
              else if payloadLen > 0xFFFF
              then wWrite ''write 64-bit length'' (putUint64 (of_nat payloadLen)) w
              else Inr w))
        (\<lambda>w. if masked f
              then (case maskKey f of (k0, k1, k2, k3) \<Rightarrow> wWrite ''write mask'' [k0, k1, k2, k3] w)
              else Inr w))
        (\<lambda>w. if payloadLen > 0
              then wWrite ''write payload''
                     (if masked f then applyMask (payload f) (maskKey f) else payload f) w
              else Inr w))
        (\<lambda>w. wWrite ''flush'' [] w))"

definition writeFrame :: "writer \<Rightarrow> frame \<Rightarrow> error + writer" where
  "writeFrame w f =
     (if \<not> isValidOpcode (opcode f) then Inl ErrInvalidOpcode
      else if isControlFrame (opcode f) \<and> \<not> fin f then Inl ErrControlFragmented
      else if isControlFrame (opcode f) \<and> length (payload f) > maxControlPayload
        then Inl ErrControlTooLarge
      else if opcode f = opcodeText \<and> \<not> utf8Valid (payload f) then Inl ErrInvalidUTF8
      else if length (payload f) > maxFramePayload then Inl ErrFrameTooLarge
      else writeFrameNoValidation w f)"

text \<open>The bytes of one frame on the wire, and the frames that \<^verbatim>\<open>writeFrame\<close> accepts
  with reserved bits clear.\<close>

definition frameBytes :: "frame \<Rightarrow> byte list" where
  "frameBytes f =
     [header0 f, header1 f] @
     (if length (payload f) > payloadLen7Bit \<and> length (payload f) \<le> 0xFFFF
        then putUint16 (of_nat (length (payload f)))
      else if length (payload f) > 0xFFFF then putUint64 (of_nat (length (payload f)))
      else []) @
     (if masked f then (case maskKey f of (k0, k1, k2, k3) \<Rightarrow> [k0, k1, k2, k3]) else []) @
     (if masked f then applyMask (payload f) (maskKey f) else payload f)"

definition validFrame :: "frame \<Rightarrow> bool" where
  "validFrame f =
     (isValidOpcode (opcode f) \<and> \<not> rsv1 f \<and> \<not> rsv2 f \<and> \<not> rsv3 f \<and>
      (isControlFrame (opcode f) \<longrightarrow> fin f \<and> length (payload f) \<le> maxControlPayload) \<and>
      (opcode f = opcodeText \<longrightarrow> utf8Valid (payload f)) \<and>
      length (payload f) \<le> maxFramePayload)"

text \<open>The 7-bit length field that \<^verbatim>\<open>writeFrame\<close> puts in the second header byte.\<close>

definition len7 :: "nat \<Rightarrow> nat" where
  "len7 n = (if n \<le> 125 then n else if n \<le> 65535 then 126 else 127)"

section \<open>WebSocket connection (package websocket: Conn, MessageType, CloseCode)\<close>

text \<open>\<^verbatim>\<open>MessageType\<close> and \<^verbatim>\<open>CloseCode\<close> are Go \<^verbatim>\<open>int\<close>s with named constants.\<close>

type_synonym MessageType = int
type_synonym CloseCode = int

definition TextMessage :: MessageType where "TextMessage = 1"
definition BinaryMessage :: MessageType where "BinaryMessage = 2"

definition CloseNormalClosure :: CloseCode where "CloseNormalClosure = 1000"
definition CloseGoingAway :: CloseCode where "CloseGoingAway = 1001"
definition CloseProtocolError :: CloseCode where "CloseProtocolError = 1002"
definition CloseUnsupportedData :: CloseCode where "CloseUnsupportedData = 1003"
definition CloseNoStatusReceived :: CloseCode where "CloseNoStatusReceived = 1005"
definition CloseAbnormalClosure :: CloseCode where "CloseAbnormalClosure = 1006"
definition CloseInvalidFramePayloadData :: CloseCode where "CloseInvalidFramePayloadData = 1007"
definition CloseTLSHandshake :: CloseCode where "CloseTLSHandshake = 1015"

lemmas closeCode_defs =
  CloseNormalClosure_def CloseGoingAway_def CloseProtocolError_def CloseUnsupportedData_def
  CloseNoStatusReceived_def CloseAbnormalClosure_def CloseInvalidFramePayloadData_def
  CloseTLSHandshake_def

text \<open>\<^verbatim>\<open>[]byte(s)\<close>: the bytes of a Go string.\<close>

definition bytesOf :: "string \<Rightarrow> byte list" where
  "bytesOf s = map (\<lambda>c. of_nat (of_char c)) s"

text \<open>
  The connection. \<open>reader\<close> holds the inbound bytes not yet consumed, \<open>writer\<close> the
  outbound stream; \<open>netConn\<close> is \<open>None\<close> for a nil \<^verbatim>\<open>c.conn\<close> and otherwise tells whether
  the TCP connection has been closed; \<open>closeOnce\<close> tells whether the \<^verbatim>\<open>sync.Once\<close> has
  fired. The mutexes only serialise callers and have no field here.
\<close>

record conn =
  reader :: "byte list"
  writer :: writer
  netConn :: "bool option"
  isServer :: bool
  closeOnce :: bool
  closed :: bool
  fragmentBuf :: "byte list"
  fragmentType :: byte
  inFragment :: bool

text \<open>The frame every emitting method builds: FIN set, masked with the constant key on a
  client connection, unmasked on a server connection.\<close>

definition outFrame :: "conn \<Rightarrow> byte \<Rightarrow> byte list \<Rightarrow> frame" where
  "outFrame c op data =
     \<lparr> fin = True, rsv1 = False, rsv2 = False, rsv3 = False, opcode = op,
       masked = (\<not> isServer c),
       maskKey = (if \<not> isServer c then (0x12, 0x34, 0x56, 0x78) else (0, 0, 0, 0)),
       payload = data \<rparr>"


definition Ping :: "conn \<Rightarrow> byte list \<Rightarrow> conn \<times> error option" where
  "Ping c data =
     (if closed c then (c, Some ErrClosed)
      else if length data > 125 then (c, Some ErrControlTooLarge)
      else
        (case writeFrame (writer c) (outFrame c opcodePing data) of
           Inl e \<Rightarrow> (c, Some e)
         | Inr w \<Rightarrow> (c\<lparr>writer := w\<rparr>, None)))"

definition Pong :: "conn \<Rightarrow> byte list \<Rightarrow> conn \<times> error option" where
  "Pong c data =
     (if closed c then (c, Some ErrClosed)
      else if length data > 125 then (c, Some ErrControlTooLarge)
      else
        (case writeFrame (writer c) (outFrame c opcodePong data) of
           Inl e \<Rightarrow> (c, Some e)
         | Inr w \<Rightarrow> (c\<lparr>writer := w\<rparr>, None)))"

text \<open>
  \<^verbatim>\<open>CloseWithCode\<close>: the body runs under \<^verbatim>\<open>closeOnce.Do\<close>; a later call returns the zero
  \<^verbatim>\<open>err\<close>. The two payload bytes are \<^verbatim>\<open>byte(code >> 8)\<close> and \<^verbatim>\<open>byte(code & 0xFF)\<close>.
  Closing the TCP connection is taken to succeed.
\<close>

definition CloseWithCode :: "conn \<Rightarrow> CloseCode \<Rightarrow> byte list \<Rightarrow> conn \<times> error option" where
  "CloseWithCode c code reason =
     (if closeOnce c then (c, None)
      else
        (let c1 = c\<lparr>closeOnce := True, closed := True\<rparr>;
             body = [word_of_int (drop_bit 8 code), word_of_int (code AND 0xFF)] @ reason
         in if reason \<noteq> [] \<and> \<not> utf8Valid reason then (c1, Some ErrInvalidUTF8)
            else
              (case writeFrame (writer c1) (outFrame c1 opcodeClose body) of
                 Inl e \<Rightarrow> (c1, Some e)
               | Inr w \<Rightarrow>
                   (c1\<lparr>writer := w, netConn := map_option (\<lambda>_. True) (netConn c1)\<rparr>, None))))"

definition Close :: "conn \<Rightarrow> conn \<times> error option" where
  "Close c = CloseWithCode c CloseNormalClosure []"

definition handleCloseFrame :: "conn \<Rightarrow> byte list \<Rightarrow> conn" where
  "handleCloseFrame c body =
     (let c1 = c\<lparr>closed := True\<rparr>;
          code = (if length body \<ge> 2
                  then uint (push_bit 8 (ucast (body ! 0)) OR ucast (body ! 1) :: 16 word)
                  else CloseNoStatusReceived)
      in fst (CloseWithCode c1 code []))"

text \<open>
  One iteration of the \<^verbatim>\<open>for\<close> loop of \<^verbatim>\<open>Read\<close>: it either returns (\<open>Done\<close>) or goes
  round again (\<open>Continue\<close>) with the connection as the iteration left it.
\<close>

datatype read_step =
    Done "conn \<times> (error + MessageType \<times> byte list)"
  | Continue conn

definition readStep :: "conn \<Rightarrow> read_step" where
  "readStep c0 =
     (case readFrame (reader c0) of
        (Inl err, r') \<Rightarrow> Done (c0\<lparr>reader := r'\<rparr>, Inl err)
      | (Inr f, r') \<Rightarrow>
          (let c = c0\<lparr>reader := r'\<rparr> in
           if opcode f = opcodePing then
             (case Pong c (payload f) of
                (c', Some err) \<Rightarrow> Done (c', Inl err)
              | (c', None) \<Rightarrow> Continue c')
           else if opcode f = opcodePong then Continue c
           else if opcode f = opcodeClose then
             Done (handleCloseFrame c (payload f), Inl ErrClosed)
           else if opcode f = opcodeText \<or> opcode f = opcodeBinary then
             (if fin f then
                (if uint (opcode f) = TextMessage \<and> \<not> utf8Valid (payload f) then
                   Done (fst (CloseWithCode c CloseInvalidFramePayloadData
                                (bytesOf ''invalid UTF-8'')), Inl ErrInvalidUTF8)
                 else Done (c, Inr (uint (opcode f), payload f)))
              else Continue (c\<lparr>inFragment := True, fragmentType := opcode f,
                               fragmentBuf := payload f\<rparr>))
           else if opcode f = opcodeContinuation then
             (if \<not> inFragment c then
                Done (fst (CloseWithCode c CloseProtocolError
                             (bytesOf ''unexpected continuation'')), Inl ErrUnexpectedContinuation)
              else
                (let c1 = c\<lparr>fragmentBuf := fragmentBuf c @ payload f\<rparr> in
                 if fin f then
                   (let c2 = c1\<lparr>inFragment := False\<rparr> in
                    if uint (fragmentType c2) = TextMessage \<and> \<not> utf8Valid (fragmentBuf c2) then
                      Done (fst (CloseWithCode c2 CloseInvalidFramePayloadData
                                   (bytesOf ''invalid UTF-8'')), Inl ErrInvalidUTF8)
                    else Done (c2, Inr (uint (fragmentType c2), fragmentBuf c2)))
                 else Continue c1))
           else Continue c))"

text \<open>
  The loop of \<^verbatim>\<open>Read\<close> terminates on every finite input: a frame that parses consumes at
  least its two header bytes, and an iteration only goes round again after a frame parsed.
\<close>

lemma readPayloadLen_length: "readPayloadLen l r = (x, r') \<Longrightarrow> length r' \<le> length r"
  by (auto simp add: readPayloadLen_def readFull_def split: if_splits option.splits)

lemma readBody_length: "readBody f n r = (x, r') \<Longrightarrow> length r' \<le> length r"
  by (auto simp add: readBody_def readFull_def Let_def split: if_splits option.splits)

lemma readFrame_consumes:
  assumes "readFrame r = (Inr f, r')"
  shows "length r' < length r"
proof (cases "readFull 2 r")
  case None
  then show ?thesis using assms by (simp add: readFrame_def)
next
  case (Some hr)
  obtain h r1 where hr: "hr = (h, r1)" by (cases hr) auto
  have l1: "length r1 < length r"
    using Some hr by (auto simp add: readFull_def split: if_splits)
  obtain x r2 where pl: "readPayloadLen (h ! 1 AND 0x7F) r1 = (x, r2)"
    by (cases "readPayloadLen (h ! 1 AND 0x7F) r1") auto
  have l2: "length r2 \<le> length r1" using readPayloadLen_length [OF pl] .
  show ?thesis
    using assms Some hr pl l1 l2
    by (auto simp add: readFrame_def Let_def split: if_splits sum.splits dest!: readBody_length)
qed

lemma Pong_reader: "Pong c d = (c', e) \<Longrightarrow> reader c' = reader c"
  by (auto simp add: Pong_def split: if_splits sum.splits)

lemma readStep_Continue:
  assumes "readStep c = Continue c'"
  shows "length (reader c') < length (reader c)"
proof -
  obtain x r' where rf: "readFrame (reader c) = (x, r')" by (cases "readFrame (reader c)") auto
  show ?thesis
  proof (cases x)
    case (Inl e)
    then show ?thesis using assms rf by (simp add: readStep_def)
  next
    case (Inr f)
    have l: "length r' < length (reader c)" using readFrame_consumes rf Inr by blast
    show ?thesis
      using assms rf Inr l
      by (auto simp add: readStep_def Let_def split: if_splits prod.splits option.splits
          dest!: Pong_reader)
  qed
qed

text \<open>\<^verbatim>\<open>for { ... }\<close> of \<^verbatim>\<open>Read\<close>, and \<^verbatim>\<open>Read\<close> itself with its check of the closed latch
  on entry.\<close>

function ReadLoop :: "conn \<Rightarrow> conn \<times> (error + MessageType \<times> byte list)" where
  "ReadLoop c = (case readStep c of Done r \<Rightarrow> r | Continue c' \<Rightarrow> ReadLoop c')"
  by pat_completeness auto
termination
  by (relation "measure (\<lambda>c. length (reader c))") (auto dest: readStep_Continue)

definition Read :: "conn \<Rightarrow> conn \<times> (error + MessageType \<times> byte list)" where
  "Read c = (if closed c then (c, Inl ErrClosed) else ReadLoop c)"

text \<open>\<^verbatim>\<open>newConn\<close>: every field not passed in has Go's zero value.\<close>

definition newConn :: "bool option \<Rightarrow> byte list \<Rightarrow> writer \<Rightarrow> bool \<Rightarrow> conn" where
  "newConn nc r w srv =
     \<lparr> reader = r, writer = w, netConn = nc, isServer = srv, closeOnce = False,
       closed = False, fragmentBuf = [], fragmentType = 0, inFragment = False \<rparr>"

text \<open>\<open>K\<close> calls of \<^verbatim>\<open>Close\<close> in a row, with what each call returned.\<close>

fun CloseN :: "nat \<Rightarrow> conn \<Rightarrow> conn \<times> error option list" where
  "CloseN 0 c = (c, [])"
| "CloseN (Suc k) c =
     (case Close c of (c', r) \<Rightarrow> (case CloseN k c' of (c'', rs) \<Rightarrow> (c'', r # rs)))"

section \<open>WebSocket hub (package websocket: Hub)\<close>

text \<open>
  Connections are pointers in the source: \<open>conns\<close> is the heap, a client is its address.
  \<open>clients\<close> lists the keys of the \<^verbatim>\<open>map[*Conn]bool\<close> in the order a \<^verbatim>\<open>range\<close> visits them;
  the three channels are the queues of values sent and not yet received.
\<close>

record hub =
  clients :: "nat list"
  register :: "nat list"
  unregister :: "nat list"
  broadcast :: "byte list list"
  hubClosed :: bool
  conns :: "nat \<Rightarrow> conn"

definition Register :: "nat \<Rightarrow> hub \<Rightarrow> hub" where
  "Register client h = (if hubClosed h then h else h\<lparr>register := register h @ [client]\<rparr>)"









section \<open>Strings (Go standard library)\<close>

text \<open>
  \<^verbatim>\<open>strings.Split(s, sep)\<close> for a one-character separator: the pieces between the
  separators, in order; the empty string gives one empty piece.
\<close>

fun Split :: "string \<Rightarrow> char \<Rightarrow> string list" where
  "Split [] sep = [[]]"
| "Split (c # cs) sep =
     (if c = sep then [] # Split cs sep
      else (case Split cs sep of [] \<Rightarrow> [[c]] | piece # pieces \<Rightarrow> (c # piece) # pieces))"

text \<open>\<^verbatim>\<open>fmt.Sprintf("%d", n)\<close>: decimal digits, a minus sign for a negative number.\<close>

definition digitChar :: "nat \<Rightarrow> char" where
  "digitChar d = ''0123456789'' ! d"

fun natDigits :: "nat \<Rightarrow> string" where
  "natDigits n = (if n < 10 then [digitChar n] else natDigits (n div 10) @ [digitChar (n mod 10)])"

declare natDigits.simps [simp del]

definition formatInt :: "int \<Rightarrow> string" where
  "formatInt n = (if n < 0 then CHR ''-'' # natDigits (nat (- n)) else natDigits (nat n))"

text \<open>The digits of a decimal numeral read back as the number.\<close>

fun digitsValue :: "string \<Rightarrow> nat" where
  "digitsValue [] = 0"
| "digitsValue (c # cs) = (of_char c - 48) * 10 ^ length cs + digitsValue cs"

section \<open>SSE event (package sse: Event)\<close>

record Event =
  Type :: string
  ID :: string
  Data :: string
  Retry :: int

definition NewEvent :: "string \<Rightarrow> Event" where
  "NewEvent d = \<lparr> Type = [], ID = [], Data = d, Retry = 0 \<rparr>"

definition WithType :: "string \<Rightarrow> Event \<Rightarrow> Event" where
  "WithType typ e = e\<lparr>Type := typ\<rparr>"

definition WithID :: "string \<Rightarrow> Event \<Rightarrow> Event" where
  "WithID i e = e\<lparr>ID := i\<rparr>"

definition WithRetry :: "int \<Rightarrow> Event \<Rightarrow> Event" where
  "WithRetry ms e = e\<lparr>Retry := ms\<rparr>"

text \<open>
  \<^verbatim>\<open>Event.String\<close> writes into a \<^verbatim>\<open>strings.Builder\<close>; the builder is the string written so
  far. \<open>writeDataLines\<close> is the \<^verbatim>\<open>for _, line := range lines\<close> loop.
\<close>

fun writeDataLines :: "string \<Rightarrow> string list \<Rightarrow> string" where
  "writeDataLines b [] = b"
| "writeDataLines b (line # lines) = writeDataLines (b @ ''data: '' @ line @ [CHR 0x0A]) lines"

definition String :: "Event \<Rightarrow> string" where
  "String e =
     (let b0 = [];
          b1 = (if Type e \<noteq> [] then b0 @ ''event: '' @ Type e @ [CHR 0x0A] else b0);
          b2 = (if ID e \<noteq> [] then b1 @ ''id: '' @ ID e @ [CHR 0x0A] else b1);
          b3 = (if Retry e > 0 then b2 @ ''retry: '' @ formatInt (Retry e) @ [CHR 0x0A] else b2);
          b4 = writeDataLines b3 (Split (Data e) (CHR 0x0A))
      in b4 @ [CHR 0x0A])"

text \<open>\<^verbatim>\<open>strings.Join\<close> with a one-character separator, to say what the pieces of a split are.\<close>

fun Join :: "string list \<Rightarrow> char \<Rightarrow> string" where
  "Join [] sep = []"
| "Join [piece] sep = piece"
| "Join (piece # next # pieces) sep = piece @ sep # Join (next # pieces) sep"

definition Comment :: "string \<Rightarrow> string" where
  "Comment text = '': '' @ text @ [CHR 0x0A, CHR 0x0A]"

section \<open>SSE connection (package sse: Conn)\<close>

datatype sse_error = ErrConnectionClosed | ErrNoFlusher | ErrHubClosed | ErrWrite | ErrMarshal

text \<open>
  \<open>sse_body\<close> is what has been written to the response, \<open>sse_flushes\<close> counts the flushes,
  \<open>sse_writeFails\<close> says that the response rejects writes, \<open>sse_cancels\<close> counts the calls of
  \<^verbatim>\<open>cancel\<close> and \<open>sse_done\<close> the times the \<^verbatim>\<open>done\<close> channel has been closed (its one signal).
\<close>

record sse_conn =
  sse_body :: string
  sse_flushes :: nat
  sse_writeFails :: bool
  sse_cancels :: nat
  sse_done :: nat
  sse_closed :: bool

definition Send :: "sse_conn \<Rightarrow> Event \<Rightarrow> sse_conn \<times> sse_error option" where
  "Send c event =
     (if sse_closed c then (c, Some ErrConnectionClosed)
      else if sse_writeFails c then (c, Some ErrWrite)
      else (c\<lparr>sse_body := sse_body c @ String event, sse_flushes := Suc (sse_flushes c)\<rparr>, None))"

definition SendData :: "sse_conn \<Rightarrow> string \<Rightarrow> sse_conn \<times> sse_error option" where
  "SendData c d = Send c (NewEvent d)"

definition sse_Close :: "sse_conn \<Rightarrow> sse_conn \<times> sse_error option" where
  "sse_Close c =
     (if sse_closed c then (c, None)
      else (c\<lparr>sse_closed := True, sse_cancels := Suc (sse_cancels c),
               sse_done := Suc (sse_done c)\<rparr>, None))"

fun sse_CloseN :: "nat \<Rightarrow> sse_conn \<Rightarrow> sse_conn \<times> sse_error option list" where
  "sse_CloseN 0 c = (c, [])"
| "sse_CloseN (Suc k) c =
     (case sse_Close c of (c', r) \<Rightarrow> (case sse_CloseN k c' of (c'', rs) \<Rightarrow> (c'', r # rs)))"

section \<open>SSE hub (package sse: Hub)\<close>

text \<open>
  The type switch of \<^verbatim>\<open>convertToString\<close> looks at the dynamic type of the payload. What it
  can find out about a value of the hub's type \<open>'t\<close> is given by three functions: \<open>asString\<close>
  is the value itself when its type is \<^verbatim>\<open>string\<close>, \<open>asStringer\<close> is the result of its
  \<^verbatim>\<open>String()\<close> method when it implements \<^verbatim>\<open>fmt.Stringer\<close>, and \<open>jsonMarshal\<close> is
  \<^verbatim>\<open>json.Marshal\<close>, \<open>None\<close> when it returns an error.
\<close>

record 't payloadType =
  asString :: "'t \<Rightarrow> string option"
  asStringer :: "'t \<Rightarrow> string option"
  jsonMarshal :: "'t \<Rightarrow> string option"

definition convertToString :: "'t payloadType \<Rightarrow> 't \<Rightarrow> string" where
  "convertToString T d =
     (case asString T d of
        Some v \<Rightarrow> v
      | None \<Rightarrow>
          (case asStringer T d of
             Some s \<Rightarrow> s
           | None \<Rightarrow> (case jsonMarshal T d of None \<Rightarrow> [] | Some jsonData \<Rightarrow> jsonData)))"

text \<open>The hub: the keys of the client map in \<^verbatim>\<open>range\<close> order, and the heap of connections.\<close>

record sse_hub =
  sse_clients :: "nat list"
  sse_hubClosed :: bool
  sse_conns :: "nat \<Rightarrow> sse_conn"

definition removeClient :: "nat \<Rightarrow> sse_hub \<Rightarrow> sse_hub" where
  "removeClient client h =
     h\<lparr>sse_clients := removeAll client (sse_clients h),
       sse_conns := (sse_conns h)(client := fst (sse_Close (sse_conns h client)))\<rparr>"

text \<open>The loop \<^verbatim>\<open>for _, client := range clients\<close> of \<^verbatim>\<open>handleBroadcast\<close> over the snapshot.\<close>

fun sendAll :: "string \<Rightarrow> nat list \<Rightarrow> sse_hub \<Rightarrow> sse_hub" where
  "sendAll dataStr [] h = h"
| "sendAll dataStr (client # rest) h =
     (case SendData (sse_conns h client) dataStr of
        (c', None) \<Rightarrow> sendAll dataStr rest (h\<lparr>sse_conns := (sse_conns h)(client := c')\<rparr>)
      | (c', Some err) \<Rightarrow>
          sendAll dataStr rest (removeClient client (h\<lparr>sse_conns := (sse_conns h)(client := c')\<rparr>)))"

definition handleBroadcast :: "'t payloadType \<Rightarrow> 't \<Rightarrow> sse_hub \<Rightarrow> sse_hub" where
  "handleBroadcast T d h =
     (let snapshot = sse_clients h;
          dataStr = convertToString T d
      in if dataStr = [] then h else sendAll dataStr snapshot h)"

section \<open>Trimming and lower-casing (Go standard library)\<close>

text \<open>
  \<^verbatim>\<open>strings.TrimSpace\<close>: it removes the white-space characters of Unicode at both ends.
  A Go string is a sequence of bytes; \<open>spaceWidth\<close> is the number of bytes of the
  white-space character a string starts with (the six ASCII ones, and the UTF-8 forms of
  U+0085, U+00A0, U+1680, U+2000 to U+200A, U+2028, U+2029, U+202F, U+205F, U+3000), 0 when
  it starts with none.
\<close>

definition asciiSpace :: "char \<Rightarrow> bool" where
  "asciiSpace c =
     (c = CHR 0x09 \<or> c = CHR 0x0A \<or> c = CHR 0x0B \<or> c = CHR 0x0C \<or> c = CHR 0x0D \<or> c = CHR 0x20)"

fun spaceWidth :: "string \<Rightarrow> nat" where
  "spaceWidth [] = 0"
| "spaceWidth (c # cs) =
     (if asciiSpace c then 1
      else if c = CHR 0xC2 then
        (case cs of d # _ \<Rightarrow> if d = CHR 0x85 \<or> d = CHR 0xA0 then 2 else 0 | [] \<Rightarrow> 0)
      else if c = CHR 0xE1 then
        (case cs of d1 # d2 # _ \<Rightarrow> if d1 = CHR 0x9A \<and> d2 = CHR 0x80 then 3 else 0 | _ \<Rightarrow> 0)
      else if c = CHR 0xE2 then
        (case cs of
           d1 # d2 # _ \<Rightarrow>
             if (d1 = CHR 0x80 \<and>
                 ((0x80 \<le> (of_char d2 :: nat) \<and> (of_char d2 :: nat) \<le> 0x8A) \<or>
                  d2 = CHR 0xA8 \<or> d2 = CHR 0xA9 \<or> d2 = CHR 0xAF)) \<or>
                (d1 = CHR 0x81 \<and> d2 = CHR 0x9F)
             then 3 else 0
         | _ \<Rightarrow> 0)
      else if c = CHR 0xE3 then
        (case cs of d1 # d2 # _ \<Rightarrow> if d1 = CHR 0x80 \<and> d2 = CHR 0x80 then 3 else 0 | _ \<Rightarrow> 0)
      else 0)"

lemma spaceWidth_le: "spaceWidth s \<le> length s"
  by (cases s) (auto split: list.splits)

function trimLeft :: "string \<Rightarrow> string" where
  "trimLeft s = (if spaceWidth s = 0 then s else trimLeft (drop (spaceWidth s) s))"
  by pat_completeness auto
termination
proof (relation "measure length")
  show "wf (measure length)" by simp
next
  fix s :: string
  assume "spaceWidth s \<noteq> 0"
  then show "(drop (spaceWidth s) s, s) \<in> measure length"
    using spaceWidth_le [of s] by (cases s) auto
qed

declare trimLeft.simps [simp del]

text \<open>Whether the last \<open>k\<close> bytes of a string are one white-space character.\<close>

definition endsWithSpace :: "string \<Rightarrow> nat \<Rightarrow> bool" where
  "endsWithSpace s k = (0 < k \<and> k \<le> length s \<and> spaceWidth (drop (length s - k) s) = k)"

function trimRight :: "string \<Rightarrow> string" where
  "trimRight s =
     (if endsWithSpace s 1 then trimRight (take (length s - 1) s)
      else if endsWithSpace s 2 then trimRight (take (length s - 2) s)
      else if endsWithSpace s 3 then trimRight (take (length s - 3) s)
      else s)"
  by pat_completeness auto
termination
  by (relation "measure length") (auto simp add: endsWithSpace_def)

declare trimRight.simps [simp del]

definition TrimSpace :: "string \<Rightarrow> string" where
  "TrimSpace s = trimRight (trimLeft s)"

text \<open>
  \<^verbatim>\<open>strings.ToLower\<close>. A string of ASCII bytes only is returned as it is when it has no
  capital letter and with A to Z mapped to a to z otherwise. Any other string goes through
  \<^verbatim>\<open>Map(unicode.ToLower, s)\<close>, which depends on the case tables of Unicode: that function is
  the parameter \<open>unicodeLower\<close>.
\<close>

definition isASCII :: "string \<Rightarrow> bool" where
  "isASCII s = list_all (\<lambda>c. (of_char c :: nat) < 0x80) s"

definition lowerASCII :: "char \<Rightarrow> char" where
  "lowerASCII c =
     (case map_of (zip ''ABCDEFGHIJKLMNOPQRSTUVWXYZ'' ''abcdefghijklmnopqrstuvwxyz'') c of
        Some l \<Rightarrow> l | None \<Rightarrow> c)"

definition hasUpper :: "string \<Rightarrow> bool" where
  "hasUpper s = list_ex (\<lambda>c. c \<in> set ''ABCDEFGHIJKLMNOPQRSTUVWXYZ'') s"

definition ToLower :: "(string \<Rightarrow> string) \<Rightarrow> string \<Rightarrow> string" where
  "ToLower unicodeLower s =
     (if isASCII s then (if \<not> hasUpper s then s else map lowerASCII s)
      else unicodeLower s)"

section \<open>SHA-1 and base64 (Go standard library)\<close>

text \<open>
  \<^verbatim>\<open>crypto/sha1\<close> after FIPS 180-4, on 32-bit unsigned numbers as \<open>nat\<close> with the
  wrap-around written out. A hash object is the bytes written to it so far.
\<close>

definition add32 :: "nat \<Rightarrow> nat \<Rightarrow> nat" where
  "add32 a b = (a + b) mod 4294967296"

definition not32 :: "nat \<Rightarrow> nat" where
  "not32 a = 4294967295 - a mod 4294967296"

definition rotl32 :: "nat \<Rightarrow> nat \<Rightarrow> nat" where
  "rotl32 n x = (x * 2 ^ n) mod 4294967296 + x div 2 ^ (32 - n)"

definition be32 :: "byte list \<Rightarrow> nat" where
  "be32 b = unat (b ! 0) * 16777216 + unat (b ! 1) * 65536 + unat (b ! 2) * 256 + unat (b ! 3)"

definition putUint32 :: "nat \<Rightarrow> byte list" where
  "putUint32 v = [of_nat (v div 16777216), of_nat (v div 65536), of_nat (v div 256), of_nat v]"

text \<open>Padding: the byte 0x80, zeros up to 56 modulo 64, the length in bits on 64 bits.\<close>

definition sha1Pad :: "byte list \<Rightarrow> byte list" where
  "sha1Pad m =
     m @ [0x80] @ replicate ((119 - length m mod 64) mod 64) 0 @
     putUint64 (of_nat (8 * length m))"

fun sha1Words :: "nat \<Rightarrow> byte list \<Rightarrow> nat list" where
  "sha1Words 0 bs = []"
| "sha1Words (Suc n) bs = be32 (take 4 bs) # sha1Words n (drop 4 bs)"

text \<open>The message schedule, newest word first:
  \<open>w[t] = rotl 1 (w[t-3] xor w[t-8] xor w[t-14] xor w[t-16])\<close>.\<close>

fun sha1Extend :: "nat \<Rightarrow> nat list \<Rightarrow> nat list" where
  "sha1Extend 0 ws = ws"
| "sha1Extend (Suc n) ws =
     sha1Extend n (rotl32 1 (ws ! 2 XOR ws ! 7 XOR ws ! 13 XOR ws ! 15) # ws)"

type_synonym sha1_state = "nat \<times> nat \<times> nat \<times> nat \<times> nat"

definition sha1F :: "nat \<Rightarrow> nat \<Rightarrow> nat \<Rightarrow> nat \<Rightarrow> nat" where
  "sha1F t b c d =
     (if t < 20 then (b AND c) OR (not32 b AND d)
      else if t < 40 then b XOR c XOR d
      else if t < 60 then ((b OR c) AND d) OR (b AND c)
      else b XOR c XOR d)"

definition sha1K :: "nat \<Rightarrow> nat" where
  "sha1K t =
     (if t < 20 then 0x5A827999 else if t < 40 then 0x6ED9EBA1
      else if t < 60 then 0x8F1BBCDC else 0xCA62C1D6)"

fun sha1Round :: "nat \<Rightarrow> nat \<Rightarrow> sha1_state \<Rightarrow> sha1_state" where
  "sha1Round t w (a, b, c, d, e) =
     (add32 (add32 (add32 (add32 (rotl32 5 a) (sha1F t b c d)) e) w) (sha1K t),
      a, rotl32 30 b, c, d)"

fun sha1Rounds :: "nat \<Rightarrow> nat list \<Rightarrow> sha1_state \<Rightarrow> sha1_state" where
  "sha1Rounds t [] s = s"
| "sha1Rounds t (w # ws) s = sha1Rounds (t + 1) ws (sha1Round t w s)"

fun addState :: "sha1_state \<Rightarrow> sha1_state \<Rightarrow> sha1_state" where
  "addState (h0, h1, h2, h3, h4) (a, b, c, d, e) =
     (add32 h0 a, add32 h1 b, add32 h2 c, add32 h3 d, add32 h4 e)"

definition sha1Block :: "sha1_state \<Rightarrow> byte list \<Rightarrow> sha1_state" where
  "sha1Block h blk =
     addState h (sha1Rounds 0 (rev (sha1Extend 64 (rev (sha1Words 16 blk)))) h)"

fun sha1Blocks :: "nat \<Rightarrow> sha1_state \<Rightarrow> byte list \<Rightarrow> sha1_state" where
  "sha1Blocks 0 s bs = s"
| "sha1Blocks (Suc n) s bs = sha1Blocks n (sha1Block s (take 64 bs)) (drop 64 bs)"

fun digestBytes :: "sha1_state \<Rightarrow> byte list" where
  "digestBytes (h0, h1, h2, h3, h4) =
     putUint32 h0 @ putUint32 h1 @ putUint32 h2 @ putUint32 h3 @ putUint32 h4"

definition sha1Sum :: "byte list \<Rightarrow> byte list" where
  "sha1Sum m =
     digestBytes (sha1Blocks (length (sha1Pad m) div 64)
       (0x67452301, 0xEFCDAB89, 0x98BADCFE, 0x10325476, 0xC3D2E1F0) (sha1Pad m))"

type_synonym sha1_hash = "byte list"

definition sha1New :: sha1_hash where "sha1New = []"

definition hashWrite :: "sha1_hash \<Rightarrow> byte list \<Rightarrow> sha1_hash" where
  "hashWrite h p = h @ p"

definition hashSum :: "sha1_hash \<Rightarrow> byte list" where
  "hashSum h = sha1Sum h"

text \<open>\<^verbatim>\<open>base64.StdEncoding.EncodeToString\<close>: three bytes give four characters of the
  standard alphabet, a rest of one or two bytes is padded with \<open>=\<close>.\<close>

definition encodeStd :: string where
  "encodeStd = ''ABCDEFGHIJKLMNOPQRSTUVWXYZabcdefghijklmnopqrstuvwxyz0123456789+/''"

definition b64 :: "nat \<Rightarrow> char" where
  "b64 i = encodeStd ! (i mod 64)"

fun EncodeToString :: "byte list \<Rightarrow> string" where
  "EncodeToString (b0 # b1 # b2 # bs) =
     b64 (unat b0 div 4) # b64 (unat b0 * 16 + unat b1 div 16) #
     b64 (unat b1 * 4 + unat b2 div 64) # b64 (unat b2) # EncodeToString bs"
| "EncodeToString [b0, b1] =
     [b64 (unat b0 div 4), b64 (unat b0 * 16 + unat b1 div 16), b64 (unat b1 * 4), CHR ''='']"
| "EncodeToString [b0] = [b64 (unat b0 div 4), b64 (unat b0 * 16), CHR ''='', CHR ''='']"
| "EncodeToString [] = []"

section \<open>Handshake (package websocket: Upgrade)\<close>

definition websocketGUID :: string where
  "websocketGUID = ''258EAFA5-E914-47DA-95CA-C5AB0DC85B11''"

definition defaultReadBufferSize :: int where "defaultReadBufferSize = 4096"
definition defaultWriteBufferSize :: int where "defaultWriteBufferSize = 4096"

text \<open>The request as far as \<^verbatim>\<open>Upgrade\<close> reads it: \<open>Header r name\<close> is \<^verbatim>\<open>r.Header.Get(name)\<close>,
  empty for an absent header.\<close>

record request =
  Method :: string
  Header :: "string \<Rightarrow> string"

record UpgradeOptions =
  Subprotocols :: "string list"
  CheckOrigin :: "(request \<Rightarrow> bool) option"
  ReadBufferSize :: int
  WriteBufferSize :: int

text \<open>
  The response writer: the headers and status written to it, whether it can be hijacked,
  whether hijacking and the flush of the hijacked stream fail, and the bytes the client
  sends after its request.
\<close>

record responseWriter =
  rwHeader :: "string \<rightharpoonup> string"
  rwStatus :: "nat option"
  rwHijacker :: bool
  rwHijackFails :: bool
  rwFlushFails :: bool
  rwInbound :: "byte list"

definition computeAcceptKey :: "string \<Rightarrow> string" where
  "computeAcceptKey key =
     EncodeToString (hashSum (hashWrite (hashWrite sha1New (bytesOf key)) (bytesOf websocketGUID)))"

text \<open>The inner loop of \<^verbatim>\<open>negotiateSubprotocol\<close> over the server's protocols, and the outer
  loop over the client's.\<close>

fun matchesServer :: "string \<Rightarrow> string list \<Rightarrow> bool" where
  "matchesServer clientProto [] = False"
| "matchesServer clientProto (serverProto # serverProtos) =
     (if clientProto = serverProto then True else matchesServer clientProto serverProtos)"

fun negotiateLoop :: "string list \<Rightarrow> string list \<Rightarrow> string" where
  "negotiateLoop [] serverProtos = []"
| "negotiateLoop (clientProto # clientProtos) serverProtos =
     (if matchesServer (TrimSpace clientProto) serverProtos then TrimSpace clientProto
      else negotiateLoop clientProtos serverProtos)"

definition negotiateSubprotocol :: "request \<Rightarrow> string list \<Rightarrow> string" where
  "negotiateSubprotocol r serverProtos =
     (if length serverProtos = 0 then []
      else negotiateLoop (Split (Header r ''Sec-WebSocket-Protocol'') (CHR '','')) serverProtos)"

fun tokenLoop :: "string list \<Rightarrow> string \<Rightarrow> bool" where
  "tokenLoop [] token = False"
| "tokenLoop (h # hs) token = (if TrimSpace h = token then True else tokenLoop hs token)"

definition headerContainsToken :: "(string \<Rightarrow> string) \<Rightarrow> string \<Rightarrow> string \<Rightarrow> bool" where
  "headerContainsToken unicodeLower header token =
     tokenLoop (Split (ToLower unicodeLower header) (CHR '','')) (ToLower unicodeLower token)"

text \<open>
  \<^verbatim>\<open>Upgrade\<close>; its first argument is the Unicode part of \<^verbatim>\<open>strings.ToLower\<close>. The reader
  and writer of the new connection are lists here, so the buffer sizes only receive their
  defaults. The response headers and the status 101 are written
  before the connection is hijacked, so they are there even when hijacking fails.
\<close>

definition Upgrade ::
    "(string \<Rightarrow> string) \<Rightarrow> responseWriter \<Rightarrow> request \<Rightarrow> UpgradeOptions option \<Rightarrow>
       responseWriter \<times> (error + conn)" where
  "Upgrade unicodeLower w r optsArg =
     (let opts0 = (case optsArg of
                     None \<Rightarrow> \<lparr>Subprotocols = [], CheckOrigin = None, ReadBufferSize = 0,
                               WriteBufferSize = 0\<rparr>
                   | Some given \<Rightarrow> given);
          opts1 = (if ReadBufferSize opts0 = 0
                   then opts0\<lparr>ReadBufferSize := defaultReadBufferSize\<rparr> else opts0);
          opts = (if WriteBufferSize opts1 = 0
                  then opts1\<lparr>WriteBufferSize := defaultWriteBufferSize\<rparr> else opts1)
      in if Method r \<noteq> ''GET'' then (w, Inl ErrInvalidMethod)
         else if \<not> headerContainsToken unicodeLower (Header r ''Upgrade'') ''websocket''
           then (w, Inl ErrMissingUpgrade)
         else if \<not> headerContainsToken unicodeLower (Header r ''Connection'') ''upgrade''
           then (w, Inl ErrMissingConnection)
         else if Header r ''Sec-WebSocket-Version'' \<noteq> ''13'' then (w, Inl ErrInvalidVersion)
         else if Header r ''Sec-WebSocket-Key'' = [] then (w, Inl ErrMissingSecKey)
         else if (case CheckOrigin opts of None \<Rightarrow> False | Some check \<Rightarrow> \<not> check r)
           then (w, Inl ErrOriginDenied)
         else
           (let subprotocol = negotiateSubprotocol r (Subprotocols opts);
                accept = computeAcceptKey (Header r ''Sec-WebSocket-Key'');
                h1 = (rwHeader w)(''Upgrade'' \<mapsto> ''websocket'', ''Connection'' \<mapsto> ''Upgrade'',
                                   ''Sec-WebSocket-Accept'' \<mapsto> accept);
                h2 = (if subprotocol \<noteq> [] then h1(''Sec-WebSocket-Protocol'' \<mapsto> subprotocol)
                      else h1);
                w1 = w\<lparr>rwHeader := h2, rwStatus := Some 101\<rparr>
            in if \<not> rwHijacker w1 then (w1, Inl ErrHijackFailed)
               else if rwHijackFails w1 then (w1, Inl (ErrIO ''hijack''))
               else if rwFlushFails w1 then (w1, Inl (ErrIO ''flush''))
               else (w1, Inr (newConn (Some False) (rwInbound w1)
                                \<lparr>out = [], failing = False\<rparr> True))))"

section \<open>Frame round trip\<close>

lemma length_applyMaskFrom [simp]: "length (applyMaskFrom i d k) = length d"
  by (induction d arbitrary: i) auto

lemma applyMaskFrom_twice [simp]: "applyMaskFrom i (applyMaskFrom i d k) k = d"
  by (induction d arbitrary: i) (auto simp: bit.xor_left_self xor.assoc)

lemma applyMask_twice: "applyMask (applyMask d k) k = d"
  by (simp add: applyMask_def)

lemma getUint16_putUint16: "getUint16 (putUint16 v) = v"
  unfolding getUint16_def putUint16_def
  by (simp, rule bit_word_eqI) (auto simp add: bit_simps)

lemma bit_byte_at:
  "k + 8 \<le> 64 \<Longrightarrow>
   bit (push_bit k (ucast (ucast (drop_bit k (v::64 word)) :: byte)) :: 64 word) n
     = (k \<le> n \<and> n < k + 8 \<and> bit v n)"
  by (auto simp add: bit_simps)

lemma getUint64_putUint64: "getUint64 (putUint64 v) = v"
proof (rule bit_word_eqI)
  fix n assume n: "n < LENGTH(64)"
  have b0: "bit (ucast (ucast v :: byte) :: 64 word) n = (n < 8 \<and> bit v n)"
    using bit_byte_at [of 0 v n] by simp
  have "n < 8 \<or> (8 \<le> n \<and> n < 16) \<or> (16 \<le> n \<and> n < 24) \<or> (24 \<le> n \<and> n < 32)
     \<or> (32 \<le> n \<and> n < 40) \<or> (40 \<le> n \<and> n < 48) \<or> (48 \<le> n \<and> n < 56) \<or> (56 \<le> n \<and> n < 64)"
    using n by simp arith
  then show "bit (getUint64 (putUint64 v)) n = bit v n"
    unfolding getUint64_def putUint64_def
    by (simp add: bit_or_iff bit_byte_at b0) arith
qed

lemma header0_fin: "isValidOpcode (opcode f) \<Longrightarrow> \<not> rsv1 f \<Longrightarrow> \<not> rsv2 f \<Longrightarrow> \<not> rsv3 f \<Longrightarrow>
  (header0 f AND 0x80 \<noteq> 0) = fin f \<and> header0 f AND 0x40 = 0 \<and> header0 f AND 0x20 = 0 \<and> header0 f AND 0x10 = 0
  \<and> header0 f AND 0x0F = opcode f"
  by (auto simp add: header0_def isValidOpcode_def opcode_defs)

lemma byte_of_small: "n < 128 \<Longrightarrow> (of_nat n :: byte) = take_bit 7 (of_nat n)"
  by (simp add: take_bit_of_nat take_bit_nat_eq_self)

lemma bit_0x7F: "bit (0x7F :: int) n = (n < 7)"
proof -
  have "(0x7F :: int) = mask 7" by (simp add: mask_eq_exp_minus_1)
  then show ?thesis by (simp only: bit_mask_iff) auto
qed

lemma bit_0x80: "bit (0x80 :: int) n = (n = 7)"
proof -
  have "(0x80 :: int) = 2 ^ 7" by simp
  then show ?thesis by (simp only: bit_exp_iff) auto
qed

lemma len7_and:
  assumes "n < 128"
  shows "(((if m then 0x80 else 0) :: byte) OR of_nat n) AND 0x7F = of_nat n"
proof -
  obtain x :: byte where x: "of_nat n = take_bit 7 x"
    using byte_of_small [OF assms] by blast
  show ?thesis
    unfolding x
    by (rule bit_word_eqI) (auto simp add: bit_simps bit_0x7F bit_0x80)
qed

lemma mask_bit:
  assumes "n < 128"
  shows "((((if m then 0x80 else 0) :: byte) OR of_nat n) AND 0x80 \<noteq> 0) = m"
proof -
  obtain x :: byte where x: "of_nat n = take_bit 7 x"
    using byte_of_small [OF assms] by blast
  have "(((if m then 0x80 else 0) :: byte) OR of_nat n) AND 0x80 = (if m then 0x80 else 0)"
    unfolding x
    by (rule bit_word_eqI) (auto simp add: bit_simps bit_0x7F bit_0x80)
  then show ?thesis by simp
qed

lemma len64_msb_clear: "n \<le> 33554432  \<Longrightarrow> (of_nat n :: 64 word) AND push_bit 63 1 = 0"
proof -
  assume a: "n \<le> 33554432"
  have "n < 2 ^ 63" using a by simp
  then have "(of_nat n :: 64 word) = take_bit 63 (of_nat n)"
    by (simp add: take_bit_of_nat take_bit_nat_eq_self)
  then obtain x :: "64 word" where x: "of_nat n = take_bit 63 x" by blast
  have b63: "bit (9223372036854775808 :: int) k = (k = 63)" for k
  proof -
    have "(9223372036854775808 :: int) = 2 ^ 63" by simp
    then show ?thesis by (simp only: bit_exp_iff) auto
  qed
  have "take_bit 63 x AND push_bit 63 1 = 0"
    by (rule bit_word_eqI) (simp add: bit_simps b63)
  then show ?thesis unfolding x .
qed

lemma unat_byte_small: "n < 256 \<Longrightarrow> unat (of_nat n :: byte) = n"
  by (simp add: unat_of_nat)

lemma ucast_byte_len: "n < 256 \<Longrightarrow> (ucast (of_nat n :: byte) :: 64 word) = of_nat n"
  by (simp add: word_unat_eq_iff unsigned_ucast_eq unat_of_nat take_bit_nat_eq_self)

lemma ucast_u16_len: "n \<le> 65535 \<Longrightarrow> (ucast (of_nat n :: 16 word) :: 64 word) = of_nat n"
  by (simp add: word_unat_eq_iff unsigned_ucast_eq unat_of_nat take_bit_nat_eq_self)

lemma unat_len64: "n \<le> 33554432 \<Longrightarrow> unat (of_nat n :: 64 word) = n"
  by (simp add: unat_of_nat)

lemma readPayloadLen_7bit:
  assumes "n \<le> 125"
  shows "readPayloadLen (of_nat n) r = (Inr (of_nat n), r)"
proof -
  have "(of_nat n :: byte) \<noteq> 126" "(of_nat n :: byte) \<noteq> 127"
    using unat_byte_small [of n] assms by auto
  then show ?thesis
    using assms by (simp add: readPayloadLen_def payloadLen16Bit_def payloadLen64Bit_def ucast_byte_len)
qed

lemma readPayloadLen_16bit:
  assumes "n \<le> 65535"
  shows "readPayloadLen 126 (putUint16 (of_nat n) @ r) = (Inr (of_nat n), r)"
proof -
  have "readFull 2 (putUint16 (of_nat n) @ r) = Some (putUint16 (of_nat n), r)"
    by (simp add: readFull_def putUint16_def)
  then show ?thesis
    using assms
    by (simp add: readPayloadLen_def payloadLen16Bit_def getUint16_putUint16 ucast_u16_len)
qed

lemma readPayloadLen_64bit:
  assumes "n \<le> 33554432"
  shows "readPayloadLen 127 (putUint64 (of_nat n) @ r) = (Inr (of_nat n), r)"
proof -
  have "readFull 8 (putUint64 (of_nat n) @ r) = Some (putUint64 (of_nat n), r)"
    by (simp add: readFull_def putUint64_def)
  then show ?thesis
    using assms
    by (simp add: readPayloadLen_def payloadLen16Bit_def payloadLen64Bit_def getUint64_putUint64 len64_msb_clear [simplified])
qed

lemma readBody_frame:
  assumes "length p \<le> 33554432" and "opcode f = opcodeText \<longrightarrow> utf8Valid p"
  shows "readBody f (of_nat (length p))
           ((if masked f then (case k of (k0, k1, k2, k3) \<Rightarrow> [k0, k1, k2, k3]) else []) @
            (if masked f then applyMask p k else p) @ rest)
         = (Inr (f\<lparr>maskKey := (if masked f then k else maskKey f), payload := p\<rparr>), rest)"
proof (cases "masked f")
  case True
  obtain k0 k1 k2 k3 where k: "k = (k0, k1, k2, k3)" by (cases k) auto
  have pos: "(0 < (of_nat (length p) :: 64 word)) = (p \<noteq> [])"
    using assms(1) by (simp add: word_less_nat_alt unat_len64)
  show ?thesis
    using True assms
    by (auto simp add: readBody_def readFull_def k unat_len64 pos applyMask_def)
next
  case False
  have pos: "(0 < (of_nat (length p) :: 64 word)) = (p \<noteq> [])"
    using assms(1) by (simp add: word_less_nat_alt unat_len64)
  show ?thesis
    using False assms
    by (auto simp add: readBody_def readFull_def unat_len64 pos)
qed

lemma len7_less: "len7 n < 128"
  by (simp add: len7_def)

lemma header1_len7: "header1 f = (if masked f then 0x80 else 0) OR of_nat (len7 (length (payload f)))"
  by (simp add: header1_def len7_def payloadLen7Bit_def payloadLen16Bit_def payloadLen64Bit_def Let_def)

lemma header1_masked: "(header1 f AND 0x80 \<noteq> 0) = masked f"
  unfolding header1_len7 by (rule mask_bit [OF len7_less])

lemma header1_length: "header1 f AND 0x7F = of_nat (len7 (length (payload f)))"
  unfolding header1_len7 by (rule len7_and [OF len7_less])

lemma readPayloadLen_frame:
  assumes "n \<le> 33554432"
  shows "readPayloadLen (of_nat (len7 n))
           ((if n > payloadLen7Bit \<and> n \<le> 0xFFFF then putUint16 (of_nat n)
             else if n > 0xFFFF then putUint64 (of_nat n) else []) @ r)
         = (Inr (of_nat n), r)"
proof -
  consider "n \<le> 125" | "125 < n" "n \<le> 65535" | "65535 < n" by linarith
  then show ?thesis
  proof cases
    case 1
    then show ?thesis
      using readPayloadLen_7bit [of n r] by (simp add: len7_def payloadLen7Bit_def)
  next
    case 2
    then show ?thesis
      using readPayloadLen_16bit [of n r] by (simp add: len7_def payloadLen7Bit_def)
  next
    case 3
    then show ?thesis
      using readPayloadLen_64bit [of n r] assms by (simp add: len7_def payloadLen7Bit_def)
  qed
qed

lemma readFrame_frameBytes:
  assumes "validFrame f"
  shows "readFrame (frameBytes f @ rest) =
           (Inr (f\<lparr>maskKey := (if masked f then maskKey f else (0, 0, 0, 0))\<rparr>), rest)"
proof -
  define n where "n = length (payload f)"
  define f0 where "f0 = f\<lparr>maskKey := (0, 0, 0, 0), payload := []\<rparr>"
  define tail1 where "tail1 =
     (if masked f then (case maskKey f of (k0, k1, k2, k3) \<Rightarrow> [k0, k1, k2, k3]) else []) @
     (if masked f then applyMask (payload f) (maskKey f) else payload f) @ rest"
  have v: "isValidOpcode (opcode f)" "\<not> rsv1 f" "\<not> rsv2 f" "\<not> rsv3 f"
    "isControlFrame (opcode f) \<longrightarrow> fin f \<and> n \<le> 125"
    "opcode f = opcodeText \<longrightarrow> utf8Valid (payload f)" "n \<le> 33554432"
    using assms by (simp_all add: validFrame_def n_def maxControlPayload_def maxFramePayload_def)
  have h0: "(header0 f AND 0x80 \<noteq> 0) = fin f" "header0 f AND 0x40 = 0" "header0 f AND 0x20 = 0"
    "header0 f AND 0x10 = 0" "header0 f AND 0x0F = opcode f"
    using header0_fin [OF v(1-4)] by simp_all
  have hdr: "\<lparr> fin = fin f, rsv1 = False, rsv2 = False, rsv3 = False, opcode = opcode f,
      masked = masked f, maskKey = (0, 0, 0, 0), payload = [] \<rparr> = f0"
    using v(2-4) by (cases f) (simp add: f0_def)
  have split: "frameBytes f @ rest = header0 f # header1 f #
      ((if n > payloadLen7Bit \<and> n \<le> 0xFFFF then putUint16 (of_nat n)
        else if n > 0xFFFF then putUint64 (of_nat n) else []) @ tail1)"
    by (simp add: frameBytes_def n_def tail1_def)
  have len: "readPayloadLen (header1 f AND 0x7F)
      ((if n > payloadLen7Bit \<and> n \<le> 0xFFFF then putUint16 (of_nat n)
        else if n > 0xFFFF then putUint64 (of_nat n) else []) @ tail1) = (Inr (of_nat n), tail1)"
    unfolding header1_length n_def [symmetric] by (rule readPayloadLen_frame [OF v(7)])
  have body: "readBody f0 (of_nat n) tail1 =
      (Inr (f0\<lparr>maskKey := (if masked f0 then maskKey f else maskKey f0), payload := payload f\<rparr>), rest)"
    using readBody_frame [of "payload f" f0 "maskKey f" rest] v(6,7)
    by (simp add: n_def tail1_def f0_def)
  have res: "f0\<lparr>maskKey := (if masked f0 then maskKey f else maskKey f0), payload := payload f\<rparr>
      = f\<lparr>maskKey := (if masked f then maskKey f else (0, 0, 0, 0))\<rparr>"
    by (simp add: f0_def)
  have op0: "opcode f0 = opcode f" "fin f0 = fin f" "rsv1 f0 = rsv1 f" "rsv2 f0 = rsv2 f" "rsv3 f0 = rsv3 f"
    by (simp_all add: f0_def)
  have chk: "\<not> (isControlFrame (opcode f) \<and> \<not> fin f)"
    "\<not> (isControlFrame (opcode f) \<and> 125 < n)" "\<not> 33554432 < n"
    using v(5,7) by auto
  show ?thesis
    unfolding split readFrame_def
    by (simp add: readFull_def h0 header1_masked hdr len [simplified] Let_def op0 body res
        unat_len64 v(1-4,7) chk maxControlPayload_def maxFramePayload_def)
qed

lemma writeFrameNoValidation_out:
  assumes "\<not> failing w"
  shows "writeFrameNoValidation w f = Inr (w\<lparr>out := out w @ frameBytes f\<rparr>)"
  using assms
  by (cases "maskKey f")
     (simp add: writeFrameNoValidation_def frameBytes_def wWrite_def thenW_def Let_def
        applyMask_def)

lemma writeFrameNoValidation_failing:
  assumes "failing w"
  shows "writeFrameNoValidation w f = Inl (ErrIO ''write header'')"
  using assms by (simp add: writeFrameNoValidation_def wWrite_def thenW_def Let_def)

lemma writeFrame_valid:
  assumes "validFrame f" "\<not> failing w"
  shows "writeFrame w f = Inr (w\<lparr>out := out w @ frameBytes f\<rparr>)"
  using assms by (auto simp add: writeFrame_def validFrame_def writeFrameNoValidation_out)

text \<open>
  C4 (as stated, refuted). A valid frame may carry a non-zero masking key while its mask bit
  is clear; \<^verbatim>\<open>writeFrame\<close> does not emit the key and \<^verbatim>\<open>readFrame\<close> leaves the key of an
  unmasked frame at zero, so the frame read back differs from the frame written in the
  key field.
\<close>

theorem frame_roundtrip_counterexample:
  "validFrame \<lparr>fin = True, rsv1 = False, rsv2 = False, rsv3 = False, opcode = opcodeBinary,
               masked = False, maskKey = (1, 2, 3, 4), payload = []\<rparr> \<and>
   writeFrame \<lparr>out = [], failing = False\<rparr>
     \<lparr>fin = True, rsv1 = False, rsv2 = False, rsv3 = False, opcode = opcodeBinary,
      masked = False, maskKey = (1, 2, 3, 4), payload = []\<rparr>
     = Inr \<lparr>out = [0x82, 0x00], failing = False\<rparr> \<and>
   readFrame [0x82, 0x00] =
     (Inr \<lparr>fin = True, rsv1 = False, rsv2 = False, rsv3 = False, opcode = opcodeBinary,
           masked = False, maskKey = (0, 0, 0, 0), payload = []\<rparr>, []) \<and>
   fst (readFrame [0x82, 0x00]) \<noteq>
     Inr \<lparr>fin = True, rsv1 = False, rsv2 = False, rsv3 = False, opcode = opcodeBinary,
          masked = False, maskKey = (1, 2, 3, 4), payload = []\<rparr>"
  by (simp add: validFrame_def writeFrame_def writeFrameNoValidation_def wWrite_def thenW_def
      header0_def header1_def readFrame_def readFull_def readPayloadLen_def readBody_def
      isValidOpcode_def isControlFrame_def opcode_defs payloadLen7Bit_def payloadLen16Bit_def
      payloadLen64Bit_def maxControlPayload_def maxFramePayload_def)

text \<open>
  C4 (amended). For every valid frame \<open>F\<close> (any FIN for data opcodes, FIN set for control
  opcodes, reserved bits zero, a defined opcode, masked or not with any key, text payloads
  valid UTF-8, payload length within the limits: 125 for control frames, 32 MiB otherwise),
  on a working stream \<^verbatim>\<open>writeFrame\<close> succeeds and appends some bytes \<open>bs\<close>, and
  \<^verbatim>\<open>readFrame\<close> on \<open>bs\<close> (followed by anything) returns a frame equal to \<open>F\<close> in FIN, the
  reserved bits, opcode, mask bit and payload, and in the masking key when \<open>F\<close> is masked; the
  key of an unmasked frame is read back as zero. Nothing after the frame is consumed. The
  statement covers every payload length, so the 7-bit, 16-bit and 64-bit encodings alike.
\<close>

theorem frame_roundtrip:
  assumes "validFrame F" and "\<not> failing w"
  shows "\<exists>bs. writeFrame w F = Inr (w\<lparr>out := out w @ bs\<rparr>) \<and>
              readFrame (bs @ rest) =
                (Inr (F\<lparr>maskKey := (if masked F then maskKey F else (0, 0, 0, 0))\<rparr>), rest)"
  using writeFrame_valid [OF assms] readFrame_frameBytes [OF assms(1)] by blast

text \<open>
  Witness for C4: a masked binary frame of 65536 bytes, the first length that needs the
  64-bit encoding.
\<close>

theorem frame_roundtrip_witness:
  "validFrame \<lparr>fin = True, rsv1 = False, rsv2 = False, rsv3 = False, opcode = opcodeBinary,
               masked = True, maskKey = (0xAA, 0xBB, 0xCC, 0xDD), payload = replicate 65536 0x55\<rparr> \<and>
   \<not> failing \<lparr>out = [], failing = False\<rparr> \<and>
   (\<exists>bs. writeFrame \<lparr>out = [], failing = False\<rparr>
           \<lparr>fin = True, rsv1 = False, rsv2 = False, rsv3 = False, opcode = opcodeBinary,
            masked = True, maskKey = (0xAA, 0xBB, 0xCC, 0xDD), payload = replicate 65536 0x55\<rparr>
         = Inr (\<lparr>out = [], failing = False\<rparr>\<lparr>out := out \<lparr>out = [], failing = False\<rparr> @ bs\<rparr>) \<and>
         readFrame (bs @ []) =
           (Inr \<lparr>fin = True, rsv1 = False, rsv2 = False, rsv3 = False, opcode = opcodeBinary,
                 masked = True, maskKey = (0xAA, 0xBB, 0xCC, 0xDD),
                 payload = replicate 65536 0x55\<rparr>, []))"
proof -
  let ?F = "\<lparr>fin = True, rsv1 = False, rsv2 = False, rsv3 = False, opcode = opcodeBinary,
             masked = True, maskKey = (0xAA, 0xBB, 0xCC, 0xDD), payload = replicate 65536 (0x55 :: byte)\<rparr>"
  let ?w = "\<lparr>out = [], failing = False\<rparr>"
  have v: "validFrame ?F"
    by (simp add: validFrame_def isValidOpcode_def isControlFrame_def opcode_defs
        maxFramePayload_def)
  have w: "\<not> failing ?w" by simp
  show ?thesis
    using v w frame_roundtrip [OF v w, of "[]"] by simp
qed

section \<open>Reading on a connection\<close>

lemmas frame_eval_defs =
  readFrame_def readFull_def readPayloadLen_def readBody_def isValidOpcode_def
  isControlFrame_def opcode_defs payloadLen7Bit_def payloadLen16Bit_def payloadLen64Bit_def
  maxControlPayload_def maxFramePayload_def applyMask_def isCont_def
  writeFrame_def writeFrameNoValidation_def wWrite_def thenW_def header0_def header1_def

lemmas conn_eval_defs =
  Read_def ReadLoop.simps readStep_def newConn_def Pong_def CloseWithCode_def
  handleCloseFrame_def outFrame_def bytesOf_def TextMessage_def BinaryMessage_def
  closeCode_defs Let_def

text \<open>
  C1 (the code at the failing input). A server connection whose inbound bytes are the one
  frame \<open>{FIN=1, text, payload FF FE}\<close>, that is \<open>81 02 FF FE\<close>: \<^verbatim>\<open>Read\<close> returns
  \<^verbatim>\<open>ErrInvalidUTF8\<close>, but nothing has been written on the wire and the connection is not
  latched closed. \<^verbatim>\<open>readFrame\<close> rejects the frame first, so the branch of \<^verbatim>\<open>Read\<close> that
  sends close code 1007 is never reached. The same frame masked with the key 12 34 56 78,
  as a client sends it, fares the same.
\<close>

theorem Read_invalid_utf8_text_no_close:
  "Read (newConn (Some False) [0x81, 0x02, 0xFF, 0xFE] \<lparr>out = [], failing = False\<rparr> True)
     = (newConn (Some False) [] \<lparr>out = [], failing = False\<rparr> True, Inl ErrInvalidUTF8) \<and>
   out (writer (fst (Read (newConn (Some False) [0x81, 0x02, 0xFF, 0xFE]
                               \<lparr>out = [], failing = False\<rparr> True)))) = [] \<and>
   \<not> closed (fst (Read (newConn (Some False) [0x81, 0x02, 0xFF, 0xFE]
                               \<lparr>out = [], failing = False\<rparr> True))) \<and>
   Read (newConn (Some False) [0x81, 0x82, 0x12, 0x34, 0x56, 0x78, 0xED, 0xCA]
           \<lparr>out = [], failing = False\<rparr> True)
     = (newConn (Some False) [] \<lparr>out = [], failing = False\<rparr> True, Inl ErrInvalidUTF8)"
  by (simp add: conn_eval_defs frame_eval_defs)

text \<open>
  C2 (the code at the failing inputs). A close frame without a status code, \<open>88 00\<close>, makes
  the connection answer \<open>88 02 03 ED\<close>: a close frame carrying 1005 (so does the masked
  form \<open>88 80 12 34 56 78\<close> of the same frame). A close frame carrying 1006 or 1015 is
  echoed with that code.
\<close>

theorem Read_close_echoes_reserved_code:
  "out (writer (fst (Read (newConn (Some False) [0x88, 0x00] \<lparr>out = [], failing = False\<rparr> True))))
     = [0x88, 0x02, 0x03, 0xED] \<and>
   out (writer (fst (Read (newConn (Some False) [0x88, 0x02, 0x03, 0xEE]
                               \<lparr>out = [], failing = False\<rparr> True))))
     = [0x88, 0x02, 0x03, 0xEE] \<and>
   out (writer (fst (Read (newConn (Some False) [0x88, 0x02, 0x03, 0xF7]
                               \<lparr>out = [], failing = False\<rparr> True))))
     = [0x88, 0x02, 0x03, 0xF7] \<and>
   out (writer (fst (Read (newConn (Some False) [0x88, 0x80, 0x12, 0x34, 0x56, 0x78]
                               \<lparr>out = [], failing = False\<rparr> True))))
     = [0x88, 0x02, 0x03, 0xED] \<and>
   uint (push_bit 8 (ucast (0x03 :: byte)) OR ucast (0xED :: byte) :: 16 word) = CloseNoStatusReceived \<and>
   uint (push_bit 8 (ucast (0x03 :: byte)) OR ucast (0xEE :: byte) :: 16 word) = CloseAbnormalClosure \<and>
   uint (push_bit 8 (ucast (0x03 :: byte)) OR ucast (0xF7 :: byte) :: 16 word) = CloseTLSHandshake"
  by (simp add: conn_eval_defs frame_eval_defs)

text \<open>
  C3 (the code at the failing input). The two-byte character C3 A9 split over a text frame
  with FIN clear and a final continuation frame, \<open>01 01 C3\<close> \<open>80 01 A9\<close>: the concatenation
  is valid UTF-8, yet \<^verbatim>\<open>Read\<close> returns \<^verbatim>\<open>ErrInvalidUTF8\<close> after the first frame and leaves
  the continuation frame unread (and so with both frames masked). When the split falls
  between two continuation frames
  instead (\<open>01 01 61\<close>, \<open>00 01 C3\<close>, \<open>80 01 A9\<close>) the message is delivered whole.
\<close>

theorem Read_fragmented_text_split_character:
  "utf8Valid [0xC3, 0xA9] \<and> \<not> utf8Valid [0xC3] \<and>
   Read (newConn (Some False) [0x01, 0x01, 0xC3, 0x80, 0x01, 0xA9] \<lparr>out = [], failing = False\<rparr> True)
     = (newConn (Some False) [0x80, 0x01, 0xA9] \<lparr>out = [], failing = False\<rparr> True,
        Inl ErrInvalidUTF8) \<and>
   snd (Read (newConn (Some False)
                 [0x01, 0x81, 0x12, 0x34, 0x56, 0x78, 0xD1, 0x80, 0x81, 0x12, 0x34, 0x56, 0x78, 0xBB]
                 \<lparr>out = [], failing = False\<rparr> True))
     = Inl ErrInvalidUTF8 \<and>
   snd (Read (newConn (Some False) [0x01, 0x01, 0x61, 0x00, 0x01, 0xC3, 0x80, 0x01, 0xA9]
                 \<lparr>out = [], failing = False\<rparr> True))
     = Inr (TextMessage, [0x61, 0xC3, 0xA9])"
  by (simp add: conn_eval_defs frame_eval_defs)

section \<open>Emitting frames\<close>

lemma writeFrame_Inr:
  assumes "writeFrame w f = Inr w'"
  shows "\<not> failing w \<and> w' = w\<lparr>out := out w @ frameBytes f\<rparr> \<and>
         (\<not> rsv1 f \<and> \<not> rsv2 f \<and> \<not> rsv3 f \<longrightarrow> validFrame f)"
proof (cases "failing w")
  case True
  then show ?thesis
    using assms by (simp add: writeFrame_def writeFrameNoValidation_failing split: if_splits)
next
  case False
  then show ?thesis
    using assms
    by (auto simp add: writeFrame_def writeFrameNoValidation_out validFrame_def split: if_splits)
qed

lemma outFrame_simps [simp]:
  "opcode (outFrame c op d) = op" "fin (outFrame c op d)" "payload (outFrame c op d) = d"
  "\<not> rsv1 (outFrame c op d)" "\<not> rsv2 (outFrame c op d)" "\<not> rsv3 (outFrame c op d)"
  "masked (outFrame c op d) = (\<not> isServer c)"
  by (simp_all add: outFrame_def)

text \<open>What a successful emission of an \<open>outFrame\<close> puts on the wire: the bytes of exactly one
  frame, which parse back to that opcode and payload with nothing left over.\<close>

lemma emit_outFrame:
  assumes "writeFrame w (outFrame c op d) = Inr w'"
  shows "\<exists>bs f. out w' = out w @ bs \<and> failing w' = failing w \<and> readFrame bs = (Inr f, []) \<and>
           opcode f = op \<and> fin f \<and> payload f = d"
proof -
  let ?f = "outFrame c op d"
  have w: "w' = w\<lparr>out := out w @ frameBytes ?f\<rparr>" and v: "validFrame ?f"
    using writeFrame_Inr [OF assms] by simp_all
  have "readFrame (frameBytes ?f @ []) =
          (Inr (?f\<lparr>maskKey := (if masked ?f then maskKey ?f else (0, 0, 0, 0))\<rparr>), [])"
    by (rule readFrame_frameBytes [OF v])
  then show ?thesis using w by (intro exI [of _ "frameBytes ?f"]) auto
qed

lemma CloseWithCode_done: "closeOnce c \<Longrightarrow> CloseWithCode c code reason = (c, None)"
  by (simp add: CloseWithCode_def)

lemma CloseWithCode_first:
  assumes "\<not> closeOnce c" and "CloseWithCode c code reason = (c', r)"
  shows "closeOnce c' \<and> closed c' \<and>
         (out (writer c') = out (writer c) \<or>
          (\<exists>bs f. out (writer c') = out (writer c) @ bs \<and> readFrame bs = (Inr f, []) \<and>
                  opcode f = opcodeClose \<and> fin f \<and>
                  payload f = [word_of_int (drop_bit 8 code), word_of_int (code AND 0xFF)] @ reason))"
proof -
  let ?c1 = "c\<lparr>closeOnce := True, closed := True\<rparr>"
  let ?body = "[word_of_int (drop_bit 8 code), word_of_int (code AND 0xFF)] @ reason"
  show ?thesis
  proof (cases "writeFrame (writer ?c1) (outFrame ?c1 opcodeClose ?body)")
    case (Inl e)
    then show ?thesis
      using assms by (auto simp add: CloseWithCode_def Let_def split: if_splits)
  next
    case (Inr w)
    from emit_outFrame [OF Inr] obtain bs f where
      "out w = out (writer c) @ bs" "readFrame bs = (Inr f, [])" "opcode f = opcodeClose" "fin f"
      "payload f = ?body"
      by auto
    then show ?thesis
      using assms Inr by (auto simp add: CloseWithCode_def Let_def split: if_splits)
  qed
qed

section \<open>Closing a connection\<close>

lemma Close_closeOnce: "closeOnce (fst (Close c))"
  by (auto simp add: Close_def CloseWithCode_def Let_def split: sum.splits)

lemma CloseN_done: "closeOnce c \<Longrightarrow> CloseN k c = (c, replicate k None)"
  by (induction k) (simp_all add: Close_def CloseWithCode_done)

lemma CloseN_Suc: "CloseN (Suc k) c = (fst (Close c), snd (Close c) # replicate k None)"
proof -
  obtain c' r where cl: "Close c = (c', r)" by (cases "Close c") auto
  have "closeOnce c'" using Close_closeOnce [of c] cl by simp
  then show ?thesis using cl by (simp add: CloseN_done)
qed

lemma sse_Close_closed: "sse_closed (fst (sse_Close c))"
  by (simp add: sse_Close_def)

lemma sse_CloseN_closed: "sse_closed c \<Longrightarrow> sse_CloseN k c = (c, replicate k None)"
  by (induction k) (simp_all add: sse_Close_def)

lemma sse_CloseN_Suc: "sse_CloseN (Suc k) c = (fst (sse_Close c), replicate (Suc k) None)"
proof -
  obtain c' where cl: "sse_Close c = (c', None)"
    by (cases "sse_closed c") (auto simp add: sse_Close_def)
  have "sse_closed c'" using sse_Close_closed [of c] cl by simp
  then show ?thesis using cl by (simp add: sse_CloseN_closed)
qed

text \<open>
  C5. For every \<open>K \<ge> 1\<close>, \<open>K\<close> calls of \<^verbatim>\<open>Close\<close> in a row leave a WebSocket connection as
  the first call alone leaves it, and every call after the first returns no error. The
  first call on a connection not yet closed latches it closed. All \<open>K\<close> calls together put
  on the wire either nothing or the bytes of exactly one frame, a close frame. On an SSE
  connection \<open>K\<close> calls leave the connection as one call does and all return no error; on a
  connection not yet closed they latch it closed and close the \<^verbatim>\<open>done\<close> channel exactly once;
  on a closed connection they change nothing.
\<close>

theorem Close_idempotent:
  assumes "1 \<le> K"
  shows "fst (CloseN K c) = fst (Close c) \<and>
         snd (CloseN K c) = snd (Close c) # replicate (K - 1) None \<and>
         (\<not> closeOnce c \<longrightarrow> closed (fst (CloseN K c))) \<and>
         (closeOnce c \<longrightarrow> fst (CloseN K c) = c) \<and>
         (out (writer (fst (CloseN K c))) = out (writer c) \<or>
          (\<exists>bs f. out (writer (fst (CloseN K c))) = out (writer c) @ bs \<and>
                  readFrame bs = (Inr f, []) \<and> opcode f = opcodeClose)) \<and>
         fst (sse_CloseN K s) = fst (sse_Close s) \<and>
         snd (sse_CloseN K s) = replicate K None \<and>
         (\<not> sse_closed s \<longrightarrow>
            sse_closed (fst (sse_CloseN K s)) \<and> sse_done (fst (sse_CloseN K s)) = Suc (sse_done s)) \<and>
         (sse_closed s \<longrightarrow> fst (sse_CloseN K s) = s)"
proof -
  obtain k where K: "K = Suc k" using assms by (cases K) auto
  obtain c' r where cl: "Close c = (c', r)" by (cases "Close c") auto
  have ws: "fst (CloseN K c) = c'" "snd (CloseN K c) = r # replicate (K - 1) None"
    using cl by (simp_all add: K CloseN_Suc del: CloseN.simps)
  have first: "\<not> closeOnce c \<Longrightarrow> closed c' \<and>
      (out (writer c') = out (writer c) \<or>
       (\<exists>bs f. out (writer c') = out (writer c) @ bs \<and> readFrame bs = (Inr f, []) \<and>
               opcode f = opcodeClose))"
    using CloseWithCode_first [of c CloseNormalClosure "[]" c' r] cl
    by (auto simp add: Close_def)
  have later: "closeOnce c \<Longrightarrow> c' = c"
    using cl by (simp add: Close_def CloseWithCode_done)
  have sse: "fst (sse_CloseN K s) = fst (sse_Close s)" "snd (sse_CloseN K s) = replicate K None"
    by (simp_all add: K sse_CloseN_Suc del: sse_CloseN.simps)
  show ?thesis
    unfolding ws sse using first later cl
    by (cases "closeOnce c") (auto simp add: sse_Close_def)
qed

text \<open>
  Witness for C5: three calls on a fresh server connection and on a fresh SSE connection.
  One close frame with code 1000 is on the wire, \<open>88 02 03 E8\<close>, and \<^verbatim>\<open>done\<close> was closed once.
\<close>

theorem Close_idempotent_witness:
  "(1 :: nat) \<le> 3 \<and>
   out (writer (fst (CloseN 3 (newConn (Some False) [] \<lparr>out = [], failing = False\<rparr> True))))
     = [0x88, 0x02, 0x03, 0xE8] \<and>
   closed (fst (CloseN 3 (newConn (Some False) [] \<lparr>out = [], failing = False\<rparr> True))) \<and>
   snd (CloseN 3 (newConn (Some False) [] \<lparr>out = [], failing = False\<rparr> True))
     = [None, None, None] \<and>
   sse_done (fst (sse_CloseN 3 \<lparr>sse_body = [], sse_flushes = 0, sse_writeFails = False,
                                 sse_cancels = 0, sse_done = 0, sse_closed = False\<rparr>)) = 1 \<and>
   snd (sse_CloseN 3 \<lparr>sse_body = [], sse_flushes = 0, sse_writeFails = False,
                         sse_cancels = 0, sse_done = 0, sse_closed = False\<rparr>) = [None, None, None]"
proof -
  have k: "(1 :: nat) \<le> 3" by simp
  have cl: "Close (newConn (Some False) [] \<lparr>out = [], failing = False\<rparr> True) =
      (\<lparr>reader = [], writer = \<lparr>out = [0x88, 0x02, 0x03, 0xE8], failing = False\<rparr>,
        netConn = Some True, isServer = True, closeOnce = True, closed = True,
        fragmentBuf = [], fragmentType = 0, inFragment = False\<rparr>, None)"
    by (simp add: Close_def newConn_def CloseWithCode_def outFrame_def closeCode_defs Let_def
        frame_eval_defs)
  show ?thesis
    using Close_idempotent [OF k, of "newConn (Some False) [] \<lparr>out = [], failing = False\<rparr> True"
        "\<lparr>sse_body = [], sse_flushes = 0, sse_writeFails = False,
          sse_cancels = 0, sse_done = 0, sse_closed = False\<rparr>"]
    by (simp add: cl sse_Close_def numeral_eq_Suc del: CloseN.simps sse_CloseN.simps)
qed

section \<open>Serialising an SSE event\<close>

lemma Split_nonempty: "Split s sep \<noteq> []"
  by (induction s) (auto split: list.splits)

lemma Join_Split: "Join (Split s sep) sep = s"
proof (induction s)
  case Nil
  then show ?case by simp
next
  case (Cons c cs)
  show ?case
  proof (cases "c = sep")
    case True
    obtain p ps where "Split cs sep = p # ps" using Split_nonempty [of cs sep] by (cases "Split cs sep") auto
    then show ?thesis using Cons True by simp
  next
    case False
    obtain p ps where sp: "Split cs sep = p # ps" using Split_nonempty [of cs sep] by (cases "Split cs sep") auto
    then show ?thesis using Cons False by (cases ps) auto
  qed
qed

lemma Split_no_sep: "piece \<in> set (Split s sep) \<Longrightarrow> sep \<notin> set piece"
proof (induction s arbitrary: piece)
  case Nil
  then show ?case by simp
next
  case (Cons c cs)
  then show ?case by (auto split: if_splits list.splits)
qed

lemma length_Split: "length (Split s sep) = Suc (count_list s sep)"
  by (induction s) (auto split: list.splits simp: Split_nonempty)

lemma writeDataLines_eq:
  "writeDataLines b ls = b @ concat (map (\<lambda>line. ''data: '' @ line @ [CHR 0x0A]) ls)"
  by (induction ls arbitrary: b) auto

lemma String_format:
  "String e =
     (if Type e \<noteq> [] then ''event: '' @ Type e @ [CHR 0x0A] else []) @
     (if ID e \<noteq> [] then ''id: '' @ ID e @ [CHR 0x0A] else []) @
     (if Retry e > 0 then ''retry: '' @ formatInt (Retry e) @ [CHR 0x0A] else []) @
     concat (map (\<lambda>line. ''data: '' @ line @ [CHR 0x0A]) (Split (Data e) (CHR 0x0A))) @
     [CHR 0x0A]"
  by (simp add: String_def Let_def writeDataLines_eq)

lemma digitChar_value:
  assumes "d < 10"
  shows "of_char (digitChar d) = (48 + d :: nat)"
proof -
  have "d = 0 \<or> d = 1 \<or> d = 2 \<or> d = 3 \<or> d = 4 \<or> d = 5 \<or> d = 6 \<or> d = 7 \<or> d = 8 \<or> d = 9"
    using assms by arith
  then show ?thesis by (elim disjE) (simp_all add: digitChar_def)
qed

lemma digitsValue_append: "digitsValue (xs @ [c]) = digitsValue xs * 10 + (of_char c - 48)"
  by (induction xs) (auto simp add: algebra_simps)

lemma digitsValue_natDigits: "digitsValue (natDigits n) = n"
proof (induction n rule: natDigits.induct)
  case (1 n)
  show ?case
  proof (cases "n < 10")
    case True
    then show ?thesis by (subst natDigits.simps) (simp add: digitChar_value)
  next
    case False
    have "digitsValue (natDigits (n div 10)) = n div 10" using 1 False by simp
    then show ?thesis
      using False
      by (subst natDigits.simps) (simp add: digitsValue_append digitChar_value)
  qed
qed

text \<open>
  C6. For every event, \<^verbatim>\<open>String\<close> is the concatenation, in this order, of
  \<open>event: <type>\<close> and a newline exactly when the type is non-empty, \<open>id: <id>\<close> and a
  newline exactly when the id is non-empty, \<open>retry: <ms>\<close> and a newline exactly when retry
  is positive, one \<open>data: <line>\<close> and a newline for each piece of the data split at
  newlines, and one more newline. The pieces are the newline-separated lines of the data:
  joined with newlines they give the data back, none contains a newline, and there is one
  more of them than there are newlines in the data. \<open><ms>\<close> is the decimal numeral of retry.
  Empty data gives exactly one \<open>data: \<close> line, and the event of the spec's scenario 7
  serialises to the bytes given there.
\<close>

theorem Event_String_serialization:
  "String e =
     (if Type e \<noteq> [] then ''event: '' @ Type e @ [CHR 0x0A] else []) @
     (if ID e \<noteq> [] then ''id: '' @ ID e @ [CHR 0x0A] else []) @
     (if Retry e > 0 then ''retry: '' @ formatInt (Retry e) @ [CHR 0x0A] else []) @
     concat (map (\<lambda>line. ''data: '' @ line @ [CHR 0x0A]) (Split (Data e) (CHR 0x0A))) @
     [CHR 0x0A] \<and>
   Join (Split (Data e) (CHR 0x0A)) (CHR 0x0A) = Data e \<and>
   (\<forall>line \<in> set (Split (Data e) (CHR 0x0A)). CHR 0x0A \<notin> set line) \<and>
   length (Split (Data e) (CHR 0x0A)) = Suc (count_list (Data e) (CHR 0x0A)) \<and>
   (Retry e > 0 \<longrightarrow> digitsValue (formatInt (Retry e)) = nat (Retry e)) \<and>
   String (NewEvent []) = ''data: '' @ [CHR 0x0A, CHR 0x0A] \<and>
   String (WithID ''42'' (WithType ''msg''
             (NewEvent (''line1'' @ [CHR 0x0A] @ ''line2'' @ [CHR 0x0A] @ ''line3''))))
     = ''event: msg'' @ [CHR 0x0A] @ ''id: 42'' @ [CHR 0x0A] @ ''data: line1'' @ [CHR 0x0A] @
       ''data: line2'' @ [CHR 0x0A] @ ''data: line3'' @ [CHR 0x0A, CHR 0x0A]"
proof -
  have ex: "String (WithID ''42'' (WithType ''msg''
             (NewEvent (''line1'' @ [CHR 0x0A] @ ''line2'' @ [CHR 0x0A] @ ''line3''))))
     = ''event: msg'' @ [CHR 0x0A] @ ''id: 42'' @ [CHR 0x0A] @ ''data: line1'' @ [CHR 0x0A] @
       ''data: line2'' @ [CHR 0x0A] @ ''data: line3'' @ [CHR 0x0A, CHR 0x0A]"
    by (simp add: String_def WithID_def WithType_def NewEvent_def)
  have em: "String (NewEvent []) = ''data: '' @ [CHR 0x0A, CHR 0x0A]"
    by (simp add: String_def NewEvent_def)
  have dg: "Retry e > 0 \<longrightarrow> digitsValue (formatInt (Retry e)) = nat (Retry e)"
    by (simp add: formatInt_def digitsValue_natDigits)
  show ?thesis
    using String_format [of e] Join_Split [of "Data e" "CHR 0x0A"] Split_no_sep [of _ "Data e" "CHR 0x0A"]
      length_Split [of "Data e" "CHR 0x0A"] dg em ex
    by blast
qed

text \<open>
  Witness for C6: an event with all four fields; its retry of 3000 ms is written as the
  numeral \<open>3000\<close>, its two data lines as two \<open>data:\<close> lines.
\<close>

theorem Event_String_serialization_witness:
  "String \<lparr>Type = ''tick'', ID = ''7'', Data = ''a'' @ [CHR 0x0A] @ ''b'', Retry = 3000\<rparr>
     = ''event: tick'' @ [CHR 0x0A] @ ''id: 7'' @ [CHR 0x0A] @ ''retry: 3000'' @ [CHR 0x0A] @
       ''data: a'' @ [CHR 0x0A] @ ''data: b'' @ [CHR 0x0A, CHR 0x0A] \<and>
   Split (''a'' @ [CHR 0x0A] @ ''b'') (CHR 0x0A) = [''a'', ''b''] \<and>
   CHR 0x0A \<notin> set ''a'' \<and> CHR 0x0A \<notin> set ''b'' \<and>
   (3000 :: int) > 0 \<and> digitsValue (formatInt 3000) = 3000"
  using Event_String_serialization
    [of "\<lparr>Type = ''tick'', ID = ''7'', Data = ''a'' @ [CHR 0x0A] @ ''b'', Retry = 3000\<rparr>"]
  by (simp add: formatInt_def natDigits.simps digitChar_def)

section \<open>Broadcasting on the WebSocket hub\<close>








section \<open>Broadcasting on the SSE hub\<close>

lemma SendData_body:
  "sse_body (fst (SendData c d)) =
     sse_body c @ (if sse_closed c \<or> sse_writeFails c then [] else String (NewEvent d))"
  by (simp add: SendData_def Send_def)

lemma removeClient_body: "sse_body (sse_conns (removeClient c h) i) = sse_body (sse_conns h i)"
  by (simp add: removeClient_def sse_Close_def)

lemma sendAll_other: "i \<notin> set cs \<Longrightarrow> sse_body (sse_conns (sendAll d cs h) i) = sse_body (sse_conns h i)"
proof (induction cs arbitrary: h)
  case Nil
  then show ?case by simp
next
  case (Cons c cs)
  then show ?case
    by (auto simp add: removeClient_body split: prod.splits option.splits)
qed

lemma sendAll_client:
  assumes "distinct cs" "i \<in> set cs"
  shows "sse_body (sse_conns (sendAll d cs h) i) =
         sse_body (sse_conns h i) @
           (if sse_closed (sse_conns h i) \<or> sse_writeFails (sse_conns h i) then []
            else String (NewEvent d))"
  using assms
proof (induction cs arbitrary: h)
  case Nil
  then show ?case by simp
next
  case (Cons c cs)
  obtain c' r where sd: "SendData (sse_conns h c) d = (c', r)"
    by (cases "SendData (sse_conns h c) d") auto
  have body: "sse_body c' = sse_body (sse_conns h c) @
      (if sse_closed (sse_conns h c) \<or> sse_writeFails (sse_conns h c) then [] else String (NewEvent d))"
    using SendData_body [of "sse_conns h c" d] sd by simp
  have flags: "sse_closed c' = sse_closed (sse_conns h c)" "sse_writeFails c' = sse_writeFails (sse_conns h c)"
    using sd by (auto simp add: SendData_def Send_def split: if_splits)
  show ?case
  proof (cases "i = c")
    case True
    then have "i \<notin> set cs" using Cons.prems by simp
    then show ?thesis
      using True sd body by (cases r) (simp_all add: sendAll_other removeClient_body)
  next
    case False
    then have i: "i \<in> set cs" and dc: "distinct cs" using Cons.prems by auto
    show ?thesis
    proof (cases r)
      case None
      then show ?thesis
        using Cons.IH [OF dc i, of "h\<lparr>sse_conns := (sse_conns h)(c := c')\<rparr>"] sd False by simp
    next
      case (Some e)
      then show ?thesis
        using Cons.IH [OF dc i, of "removeClient c (h\<lparr>sse_conns := (sse_conns h)(c := c')\<rparr>)"] sd False
        by (simp add: removeClient_def)
    qed
  qed
qed

text \<open>
  C9 (as stated, refuted). On a hub of strings with one open, writable client, broadcasting
  the empty string delivers nothing, although the payload is a string (to be emitted as it
  is, which would be the event \<open>data: \<close>) and the JSON step, which would succeed with
  \<open>""\<close>, is never run: \<^verbatim>\<open>handleBroadcast\<close> returns early whenever the converted string is
  empty.
\<close>

theorem handleBroadcast_empty_string_counterexample:
  "asString \<lparr>asString = Some, asStringer = Map.empty,
              jsonMarshal = [[] \<mapsto> [CHR 0x22, CHR 0x22]]\<rparr> [] = Some [] \<and>
   jsonMarshal \<lparr>asString = Some, asStringer = Map.empty,
                jsonMarshal = [[] \<mapsto> [CHR 0x22, CHR 0x22]]\<rparr> [] \<noteq> None \<and>
   sse_body (sse_conns
     (handleBroadcast
        \<lparr>asString = Some, asStringer = Map.empty, jsonMarshal = [[] \<mapsto> [CHR 0x22, CHR 0x22]]\<rparr> []
        \<lparr>sse_clients = [0], sse_hubClosed = False,
         sse_conns = (\<lambda>_. \<lparr>sse_body = [], sse_flushes = 0, sse_writeFails = False,
                              sse_cancels = 0, sse_done = 0, sse_closed = False\<rparr>)\<rparr>) 0) = [] \<and>
   String (NewEvent []) = ''data: '' @ [CHR 0x0A, CHR 0x0A] \<and>
   String (NewEvent []) \<noteq> [] \<and>
   sse_body (sse_conns
     (handleBroadcast
        \<lparr>asString = Some, asStringer = Map.empty, jsonMarshal = [[] \<mapsto> [CHR 0x22, CHR 0x22]]\<rparr> ''x''
        \<lparr>sse_clients = [0], sse_hubClosed = False,
         sse_conns = (\<lambda>_. \<lparr>sse_body = [], sse_flushes = 0, sse_writeFails = False,
                              sse_cancels = 0, sse_done = 0, sse_closed = False\<rparr>)\<rparr>) 0)
     = ''data: x'' @ [CHR 0x0A, CHR 0x0A]"
  by (simp add: handleBroadcast_def convertToString_def SendData_def Send_def String_def
      NewEvent_def Let_def)

text \<open>
  C9 (amended). The string sent for a payload follows the dispatch order: the payload itself
  when it is a string; else the result of its \<^verbatim>\<open>String()\<close> method when it has one; else its
  JSON encoding, or the empty string when the encoding fails. The message is dropped, the
  hub and every connection left as they were, whenever that string is empty: when the
  JSON encoding fails, and also when a string payload is empty or \<^verbatim>\<open>String()\<close> returns the
  empty string. Otherwise every registered client that is open and writable receives
  the event with that string as data, and a client that is closed or not writable
  receives nothing.
\<close>

theorem handleBroadcast_delivery:
  assumes "distinct (sse_clients h)" and "i \<in> set (sse_clients h)"
  shows "(asString T x = Some s \<longrightarrow> convertToString T x = s) \<and>
         (asString T x = None \<and> asStringer T x = Some s \<longrightarrow> convertToString T x = s) \<and>
         (asString T x = None \<and> asStringer T x = None \<and> jsonMarshal T x = Some s \<longrightarrow>
            convertToString T x = s) \<and>
         (asString T x = None \<and> asStringer T x = None \<and> jsonMarshal T x = None \<longrightarrow>
            convertToString T x = []) \<and>
         (convertToString T x = [] \<longrightarrow> handleBroadcast T x h = h) \<and>
         sse_body (sse_conns (handleBroadcast T x h) i) =
           sse_body (sse_conns h i) @
             (if convertToString T x = [] \<or> sse_closed (sse_conns h i) \<or>
                 sse_writeFails (sse_conns h i)
              then [] else String (NewEvent (convertToString T x)))"
proof -
  have "sse_body (sse_conns (sendAll (convertToString T x) (sse_clients h) h) i) =
         sse_body (sse_conns h i) @
           (if sse_closed (sse_conns h i) \<or> sse_writeFails (sse_conns h i) then []
            else String (NewEvent (convertToString T x)))"
    by (rule sendAll_client [OF assms])
  then show ?thesis
    by (simp add: handleBroadcast_def convertToString_def Let_def)
qed

text \<open>
  Witness for C9: a hub of integers encoded as JSON, with client 0 open and client 1
  closed; the payload 42 reaches client 0 as \<open>data: 42\<close> and client 1 not at all.
\<close>

theorem handleBroadcast_delivery_witness:
  "distinct (sse_clients \<lparr>sse_clients = [0, 1], sse_hubClosed = False,
      sse_conns = (\<lambda>_. \<lparr>sse_body = [], sse_flushes = 0, sse_writeFails = False,
                           sse_cancels = 0, sse_done = 0, sse_closed = False\<rparr>)
                   (1 := \<lparr>sse_body = [], sse_flushes = 0, sse_writeFails = False,
                           sse_cancels = 0, sse_done = 1, sse_closed = True\<rparr>)\<rparr>) \<and>
   sse_body (sse_conns (handleBroadcast
      \<lparr>asString = Map.empty, asStringer = Map.empty, jsonMarshal = (\<lambda>n. Some (formatInt n))\<rparr> 42
      \<lparr>sse_clients = [0, 1], sse_hubClosed = False,
       sse_conns = (\<lambda>_. \<lparr>sse_body = [], sse_flushes = 0, sse_writeFails = False,
                            sse_cancels = 0, sse_done = 0, sse_closed = False\<rparr>)
                    (1 := \<lparr>sse_body = [], sse_flushes = 0, sse_writeFails = False,
                            sse_cancels = 0, sse_done = 1, sse_closed = True\<rparr>)\<rparr>) 0)
     = ''data: 42'' @ [CHR 0x0A, CHR 0x0A] \<and>
   sse_body (sse_conns (handleBroadcast
      \<lparr>asString = Map.empty, asStringer = Map.empty, jsonMarshal = (\<lambda>n. Some (formatInt n))\<rparr> 42
      \<lparr>sse_clients = [0, 1], sse_hubClosed = False,
       sse_conns = (\<lambda>_. \<lparr>sse_body = [], sse_flushes = 0, sse_writeFails = False,
                            sse_cancels = 0, sse_done = 0, sse_closed = False\<rparr>)
                    (1 := \<lparr>sse_body = [], sse_flushes = 0, sse_writeFails = False,
                            sse_cancels = 0, sse_done = 1, sse_closed = True\<rparr>)\<rparr>) 1)
     = []"
proof -
  let ?h = "\<lparr>sse_clients = [0, 1], sse_hubClosed = False,
      sse_conns = (\<lambda>_. \<lparr>sse_body = [], sse_flushes = 0, sse_writeFails = False,
                           sse_cancels = 0, sse_done = 0, sse_closed = False\<rparr>)
                   (1 := \<lparr>sse_body = [], sse_flushes = 0, sse_writeFails = False,
                           sse_cancels = 0, sse_done = 1, sse_closed = True\<rparr>)\<rparr>"
  let ?T = "\<lparr>asString = Map.empty, asStringer = Map.empty,
             jsonMarshal = (\<lambda>n :: int. Some (formatInt n))\<rparr>"
  have d: "distinct (sse_clients ?h)" by simp
  have i0: "(0 :: nat) \<in> set (sse_clients ?h)" and i1: "(1 :: nat) \<in> set (sse_clients ?h)"
    by simp_all
  have cv: "convertToString ?T 42 = ''42''"
    by (simp add: convertToString_def formatInt_def natDigits.simps digitChar_def)
  have ev: "String (NewEvent ''42'') = ''data: 42'' @ [CHR 0x0A, CHR 0x0A]"
    by (simp add: String_def NewEvent_def)
  show ?thesis
    using d handleBroadcast_delivery [OF d i0, of ?T 42 "''42''"]
      handleBroadcast_delivery [OF d i1, of ?T 42 "''42''"]
    by (simp add: cv ev)
qed

section \<open>Subprotocol negotiation\<close>

lemmas trim_eval =
  TrimSpace_def trimLeft.simps trimRight.simps endsWithSpace_def asciiSpace_def

lemma matchesServer_iff: "matchesServer p ps = (p \<in> set ps)"
  by (induction ps) auto

lemma negotiateLoop_find:
  "negotiateLoop cps sps =
     (case find (\<lambda>p. p \<in> set sps) (map TrimSpace cps) of Some p \<Rightarrow> p | None \<Rightarrow> [])"
  by (induction cps) (auto simp add: matchesServer_iff)

lemma Upgrade_error_independent:
  "isl (snd (Upgrade u w r (Some (opts\<lparr>Subprotocols := ps\<rparr>)))) =
   isl (snd (Upgrade u w r (Some (opts\<lparr>Subprotocols := []\<rparr>))))"
  by (simp add: Upgrade_def Let_def)

lemma Upgrade_no_match:
  assumes "negotiateSubprotocol r ps = []"
  shows "Upgrade u w r (Some (opts\<lparr>Subprotocols := ps\<rparr>)) =
         Upgrade u w r (Some (opts\<lparr>Subprotocols := []\<rparr>))"
proof -
  have "negotiateSubprotocol r [] = []" by (simp add: negotiateSubprotocol_def)
  then show ?thesis using assms by (simp add: Upgrade_def Let_def)
qed

text \<open>What \<^verbatim>\<open>Upgrade\<close> does with a request that passes its six checks on a response writer
  that can be hijacked and flushed.\<close>

lemma Upgrade_success:
  assumes "Method r = ''GET''"
    and "headerContainsToken u (Header r ''Upgrade'') ''websocket''"
    and "headerContainsToken u (Header r ''Connection'') ''upgrade''"
    and "Header r ''Sec-WebSocket-Version'' = ''13''"
    and "Header r ''Sec-WebSocket-Key'' \<noteq> []"
    and "case CheckOrigin opts of None \<Rightarrow> True | Some check \<Rightarrow> check r"
    and "rwHijacker w" and "\<not> rwHijackFails w" and "\<not> rwFlushFails w"
  shows "snd (Upgrade u w r (Some opts)) =
           Inr (newConn (Some False) (rwInbound w) \<lparr>out = [], failing = False\<rparr> True)"
    and "rwStatus (fst (Upgrade u w r (Some opts))) = Some 101"
    and "rwHeader (fst (Upgrade u w r (Some opts))) ''Sec-WebSocket-Accept'' =
           Some (computeAcceptKey (Header r ''Sec-WebSocket-Key''))"
    and "rwHeader (fst (Upgrade u w r (Some opts))) ''Sec-WebSocket-Protocol'' =
           (if negotiateSubprotocol r (Subprotocols opts) \<noteq> []
            then Some (negotiateSubprotocol r (Subprotocols opts))
            else rwHeader w ''Sec-WebSocket-Protocol'')"
proof -
  have org: "\<not> (case CheckOrigin opts of None \<Rightarrow> False | Some check \<Rightarrow> \<not> check r)"
    using assms(6) by (cases "CheckOrigin opts") auto
  have org1: "\<not> (case CheckOrigin (opts\<lparr>ReadBufferSize := a\<rparr>) of
                    None \<Rightarrow> False | Some check \<Rightarrow> \<not> check r)" for a
    using org by simp
  have org2: "\<not> (case CheckOrigin (opts\<lparr>WriteBufferSize := a\<rparr>) of
                    None \<Rightarrow> False | Some check \<Rightarrow> \<not> check r)" for a
    using org by simp
  have org3: "\<not> (case CheckOrigin (opts\<lparr>ReadBufferSize := a, WriteBufferSize := b\<rparr>) of
                    None \<Rightarrow> False | Some check \<Rightarrow> \<not> check r)" for a b
    using org by simp
  note facts = assms(1-5,7-9) org org1 org2 org3
  show "snd (Upgrade u w r (Some opts)) =
           Inr (newConn (Some False) (rwInbound w) \<lparr>out = [], failing = False\<rparr> True)"
    using facts by (simp add: Upgrade_def Let_def)
  show "rwStatus (fst (Upgrade u w r (Some opts))) = Some 101"
    using facts by (simp add: Upgrade_def Let_def)
  show "rwHeader (fst (Upgrade u w r (Some opts))) ''Sec-WebSocket-Accept'' =
           Some (computeAcceptKey (Header r ''Sec-WebSocket-Key''))"
    using facts by (simp add: Upgrade_def Let_def)
  show "rwHeader (fst (Upgrade u w r (Some opts))) ''Sec-WebSocket-Protocol'' =
           (if negotiateSubprotocol r (Subprotocols opts) \<noteq> []
            then Some (negotiateSubprotocol r (Subprotocols opts))
            else rwHeader w ''Sec-WebSocket-Protocol'')"
    using facts by (simp add: Upgrade_def Let_def)
qed

text \<open>
  C7. When the server's list is not empty, \<^verbatim>\<open>negotiateSubprotocol\<close> returns the first of the
  client's tokens (the header split at commas, each token trimmed, in the client's order)
  that occurs in the server's list, and the empty string, which \<^verbatim>\<open>Upgrade\<close> takes as no
  protocol selected, when none occurs there. In that case \<^verbatim>\<open>Upgrade\<close> does exactly what it
  does with no subprotocols configured; and whatever the lists are, \<^verbatim>\<open>Upgrade\<close> fails with
  them if and only if it fails without them, so the negotiation never causes an error.
  For a request that passes the checks of \<^verbatim>\<open>Upgrade\<close> (method GET, the \<open>websocket\<close> and
  \<open>upgrade\<close> tokens, version 13, a key, the origin check if there is one) on a response
  writer that can be hijacked and flushed, \<^verbatim>\<open>Upgrade\<close> with that server list succeeds: it
  returns the new server connection and no error, with status 101 and the accept key
  written, whether a protocol matched or not; the response header
  \<open>Sec-WebSocket-Protocol\<close> is the selected protocol when a non-empty client token matched,
  and is left as it was (no protocol selected) when none matched.
\<close>

theorem negotiateSubprotocol_first_client_match:
  assumes "serverProtos \<noteq> []"
  shows "negotiateSubprotocol r serverProtos =
           (case find (\<lambda>p. p \<in> set serverProtos)
                   (map TrimSpace (Split (Header r ''Sec-WebSocket-Protocol'') (CHR '',''))) of
              Some p \<Rightarrow> p | None \<Rightarrow> []) \<and>
         (find (\<lambda>p. p \<in> set serverProtos)
            (map TrimSpace (Split (Header r ''Sec-WebSocket-Protocol'') (CHR '',''))) = None \<longrightarrow>
          negotiateSubprotocol r serverProtos = [] \<and>
          Upgrade u w r (Some (opts\<lparr>Subprotocols := serverProtos\<rparr>)) =
            Upgrade u w r (Some (opts\<lparr>Subprotocols := []\<rparr>))) \<and>
         isl (snd (Upgrade u w r (Some (opts\<lparr>Subprotocols := serverProtos\<rparr>)))) =
           isl (snd (Upgrade u w r (Some (opts\<lparr>Subprotocols := []\<rparr>)))) \<and>
         (Method r = ''GET'' \<and>
          headerContainsToken u (Header r ''Upgrade'') ''websocket'' \<and>
          headerContainsToken u (Header r ''Connection'') ''upgrade'' \<and>
          Header r ''Sec-WebSocket-Version'' = ''13'' \<and>
          Header r ''Sec-WebSocket-Key'' \<noteq> [] \<and>
          (case CheckOrigin opts of None \<Rightarrow> True | Some check \<Rightarrow> check r) \<and>
          rwHijacker w \<and> \<not> rwHijackFails w \<and> \<not> rwFlushFails w \<longrightarrow>
          snd (Upgrade u w r (Some (opts\<lparr>Subprotocols := serverProtos\<rparr>))) =
            Inr (newConn (Some False) (rwInbound w) \<lparr>out = [], failing = False\<rparr> True) \<and>
          rwStatus (fst (Upgrade u w r (Some (opts\<lparr>Subprotocols := serverProtos\<rparr>)))) = Some 101 \<and>
          rwHeader (fst (Upgrade u w r (Some (opts\<lparr>Subprotocols := serverProtos\<rparr>))))
              ''Sec-WebSocket-Accept'' = Some (computeAcceptKey (Header r ''Sec-WebSocket-Key'')) \<and>
          rwHeader (fst (Upgrade u w r (Some (opts\<lparr>Subprotocols := serverProtos\<rparr>))))
              ''Sec-WebSocket-Protocol'' =
            (case find (\<lambda>p. p \<in> set serverProtos)
                    (map TrimSpace (Split (Header r ''Sec-WebSocket-Protocol'') (CHR '',''))) of
               Some p \<Rightarrow> if p \<noteq> [] then Some p else rwHeader w ''Sec-WebSocket-Protocol''
             | None \<Rightarrow> rwHeader w ''Sec-WebSocket-Protocol''))"
proof -
  let ?found = "find (\<lambda>p. p \<in> set serverProtos)
                   (map TrimSpace (Split (Header r ''Sec-WebSocket-Protocol'') (CHR '','')))"
  let ?o = "opts\<lparr>Subprotocols := serverProtos\<rparr>"
  have n: "negotiateSubprotocol r serverProtos = (case ?found of Some p \<Rightarrow> p | None \<Rightarrow> [])"
    using assms by (simp add: negotiateSubprotocol_def negotiateLoop_find)
  have first: "?found = None \<longrightarrow>
          negotiateSubprotocol r serverProtos = [] \<and>
          Upgrade u w r (Some ?o) = Upgrade u w r (Some (opts\<lparr>Subprotocols := []\<rparr>))"
    using n Upgrade_no_match [where r = r and ps = serverProtos and u = u and w = w and opts = opts]
    by auto
  have hdr: "(if negotiateSubprotocol r (Subprotocols ?o) \<noteq> []
              then Some (negotiateSubprotocol r (Subprotocols ?o))
              else rwHeader w ''Sec-WebSocket-Protocol'') =
             (case ?found of
                Some p \<Rightarrow> if p \<noteq> [] then Some p else rwHeader w ''Sec-WebSocket-Protocol''
              | None \<Rightarrow> rwHeader w ''Sec-WebSocket-Protocol'')"
    using n by (cases ?found) simp_all
  have ok: "Method r = ''GET'' \<and>
          headerContainsToken u (Header r ''Upgrade'') ''websocket'' \<and>
          headerContainsToken u (Header r ''Connection'') ''upgrade'' \<and>
          Header r ''Sec-WebSocket-Version'' = ''13'' \<and>
          Header r ''Sec-WebSocket-Key'' \<noteq> [] \<and>
          (case CheckOrigin opts of None \<Rightarrow> True | Some check \<Rightarrow> check r) \<and>
          rwHijacker w \<and> \<not> rwHijackFails w \<and> \<not> rwFlushFails w \<longrightarrow>
          snd (Upgrade u w r (Some ?o)) =
            Inr (newConn (Some False) (rwInbound w) \<lparr>out = [], failing = False\<rparr> True) \<and>
          rwStatus (fst (Upgrade u w r (Some ?o))) = Some 101 \<and>
          rwHeader (fst (Upgrade u w r (Some ?o))) ''Sec-WebSocket-Accept'' =
            Some (computeAcceptKey (Header r ''Sec-WebSocket-Key'')) \<and>
          rwHeader (fst (Upgrade u w r (Some ?o))) ''Sec-WebSocket-Protocol'' =
            (case ?found of
               Some p \<Rightarrow> if p \<noteq> [] then Some p else rwHeader w ''Sec-WebSocket-Protocol''
             | None \<Rightarrow> rwHeader w ''Sec-WebSocket-Protocol'')"
  proof (intro impI, elim conjE)
    assume a: "Method r = ''GET''" "headerContainsToken u (Header r ''Upgrade'') ''websocket''"
      "headerContainsToken u (Header r ''Connection'') ''upgrade''"
      "Header r ''Sec-WebSocket-Version'' = ''13''" "Header r ''Sec-WebSocket-Key'' \<noteq> []"
      "case CheckOrigin opts of None \<Rightarrow> True | Some check \<Rightarrow> check r"
      "rwHijacker w" "\<not> rwHijackFails w" "\<not> rwFlushFails w"
    have co: "case CheckOrigin ?o of None \<Rightarrow> True | Some check \<Rightarrow> check r"
      using a(6) by simp
    note s = Upgrade_success [OF a(1-5) co a(7-9)]
    show "snd (Upgrade u w r (Some ?o)) =
            Inr (newConn (Some False) (rwInbound w) \<lparr>out = [], failing = False\<rparr> True) \<and>
          rwStatus (fst (Upgrade u w r (Some ?o))) = Some 101 \<and>
          rwHeader (fst (Upgrade u w r (Some ?o))) ''Sec-WebSocket-Accept'' =
            Some (computeAcceptKey (Header r ''Sec-WebSocket-Key'')) \<and>
          rwHeader (fst (Upgrade u w r (Some ?o))) ''Sec-WebSocket-Protocol'' =
            (case ?found of
               Some p \<Rightarrow> if p \<noteq> [] then Some p else rwHeader w ''Sec-WebSocket-Protocol''
             | None \<Rightarrow> rwHeader w ''Sec-WebSocket-Protocol'')"
      using s(1) s(2) s(3) s(4) [unfolded hdr] by simp
  qed
  show ?thesis
    using n first ok
      Upgrade_error_independent [where u = u and w = w and r = r and opts = opts and ps = serverProtos]
    by blast
qed

text \<open>
  Witness for C7: a request with the four handshake headers on a fresh response writer. The
  client offers \<open>mqtt,  chat , superchat\<close>, the server lists \<open>superchat\<close> before \<open>chat\<close>: the
  client's order decides, \<open>chat\<close> is selected and sent back, and the upgrade succeeds. When
  the server lists \<open>amqp\<close> only, nothing matches: no protocol header is sent and the upgrade
  succeeds all the same. The headers are ASCII, so the Unicode part of the lower-casing is
  never consulted and the result is the same whatever it is.
\<close>

theorem negotiateSubprotocol_first_client_match_witness:
  "[''superchat'', ''chat''] \<noteq> [] \<and> [''amqp''] \<noteq> [] \<and>
   negotiateSubprotocol
     \<lparr>Method = ''GET'',
      Header = (\<lambda>_. [])(''Upgrade'' := ''WebSocket'', ''Connection'' := ''keep-alive, Upgrade'',
                           ''Sec-WebSocket-Version'' := ''13'',
                           ''Sec-WebSocket-Key'' := ''dGhlIHNhbXBsZSBub25jZQ=='',
                           ''Sec-WebSocket-Protocol'' := ''mqtt,  chat , superchat'')\<rparr>
     [''superchat'', ''chat''] = ''chat'' \<and>
   snd (Upgrade id
     \<lparr>rwHeader = Map.empty, rwStatus = None, rwHijacker = True, rwHijackFails = False,
      rwFlushFails = False, rwInbound = []\<rparr>
     \<lparr>Method = ''GET'',
      Header = (\<lambda>_. [])(''Upgrade'' := ''WebSocket'', ''Connection'' := ''keep-alive, Upgrade'',
                           ''Sec-WebSocket-Version'' := ''13'',
                           ''Sec-WebSocket-Key'' := ''dGhlIHNhbXBsZSBub25jZQ=='',
                           ''Sec-WebSocket-Protocol'' := ''mqtt,  chat , superchat'')\<rparr>
     (Some \<lparr>Subprotocols = [''superchat'', ''chat''], CheckOrigin = None, ReadBufferSize = 0,
            WriteBufferSize = 0\<rparr>))
     = Inr (newConn (Some False) [] \<lparr>out = [], failing = False\<rparr> True) \<and>
   rwHeader (fst (Upgrade id
     \<lparr>rwHeader = Map.empty, rwStatus = None, rwHijacker = True, rwHijackFails = False,
      rwFlushFails = False, rwInbound = []\<rparr>
     \<lparr>Method = ''GET'',
      Header = (\<lambda>_. [])(''Upgrade'' := ''WebSocket'', ''Connection'' := ''keep-alive, Upgrade'',
                           ''Sec-WebSocket-Version'' := ''13'',
                           ''Sec-WebSocket-Key'' := ''dGhlIHNhbXBsZSBub25jZQ=='',
                           ''Sec-WebSocket-Protocol'' := ''mqtt,  chat , superchat'')\<rparr>
     (Some \<lparr>Subprotocols = [''superchat'', ''chat''], CheckOrigin = None, ReadBufferSize = 0,
            WriteBufferSize = 0\<rparr>))) ''Sec-WebSocket-Protocol'' = Some ''chat'' \<and>
   snd (Upgrade id
     \<lparr>rwHeader = Map.empty, rwStatus = None, rwHijacker = True, rwHijackFails = False,
      rwFlushFails = False, rwInbound = []\<rparr>
     \<lparr>Method = ''GET'',
      Header = (\<lambda>_. [])(''Upgrade'' := ''WebSocket'', ''Connection'' := ''keep-alive, Upgrade'',
                           ''Sec-WebSocket-Version'' := ''13'',
                           ''Sec-WebSocket-Key'' := ''dGhlIHNhbXBsZSBub25jZQ=='',
                           ''Sec-WebSocket-Protocol'' := ''mqtt,  chat , superchat'')\<rparr>
     (Some \<lparr>Subprotocols = [''amqp''], CheckOrigin = None, ReadBufferSize = 0,
            WriteBufferSize = 0\<rparr>))
     = Inr (newConn (Some False) [] \<lparr>out = [], failing = False\<rparr> True) \<and>
   rwHeader (fst (Upgrade id
     \<lparr>rwHeader = Map.empty, rwStatus = None, rwHijacker = True, rwHijackFails = False,
      rwFlushFails = False, rwInbound = []\<rparr>
     \<lparr>Method = ''GET'',
      Header = (\<lambda>_. [])(''Upgrade'' := ''WebSocket'', ''Connection'' := ''keep-alive, Upgrade'',
                           ''Sec-WebSocket-Version'' := ''13'',
                           ''Sec-WebSocket-Key'' := ''dGhlIHNhbXBsZSBub25jZQ=='',
                           ''Sec-WebSocket-Protocol'' := ''mqtt,  chat , superchat'')\<rparr>
     (Some \<lparr>Subprotocols = [''amqp''], CheckOrigin = None, ReadBufferSize = 0,
            WriteBufferSize = 0\<rparr>))) ''Sec-WebSocket-Protocol'' = None"
proof -
  let ?r = "\<lparr>Method = ''GET'',
      Header = (\<lambda>_. [])(''Upgrade'' := ''WebSocket'', ''Connection'' := ''keep-alive, Upgrade'',
                           ''Sec-WebSocket-Version'' := ''13'',
                           ''Sec-WebSocket-Key'' := ''dGhlIHNhbXBsZSBub25jZQ=='',
                           ''Sec-WebSocket-Protocol'' := ''mqtt,  chat , superchat'')\<rparr>"
  let ?w = "\<lparr>rwHeader = Map.empty, rwStatus = None, rwHijacker = True, rwHijackFails = False,
      rwFlushFails = False, rwInbound = []\<rparr>"
  let ?o = "\<lparr>Subprotocols = [], CheckOrigin = None, ReadBufferSize = 0, WriteBufferSize = 0\<rparr>"
  have ne1: "[''superchat'', ''chat''] \<noteq> []" and ne2: "[''amqp''] \<noteq> []" by simp_all
  have tok: "headerContainsToken id (Header ?r ''Upgrade'') ''websocket''"
    "headerContainsToken id (Header ?r ''Connection'') ''upgrade''"
    by (simp_all add: headerContainsToken_def ToLower_def isASCII_def hasUpper_def lowerASCII_def
        trim_eval)
  have tokens: "map TrimSpace (Split (Header ?r ''Sec-WebSocket-Protocol'') (CHR '','')) =
      [''mqtt'', ''chat'', ''superchat'']"
    by (simp add: trim_eval)
  show ?thesis
    using ne1 ne2 tok
      negotiateSubprotocol_first_client_match [OF ne1, where r = ?r and u = id and w = ?w and opts = ?o]
      negotiateSubprotocol_first_client_match [OF ne2, where r = ?r and u = id and w = ?w and opts = ?o,
        THEN conjunct2, THEN conjunct2, THEN conjunct2]
    by (simp add: trim_eval)
qed

section \<open>The accept key\<close>

lemma sha1Words_numeral:
  "sha1Words (numeral k) bs = be32 (take 4 bs) # sha1Words (pred_numeral k) (drop 4 bs)"
  by (simp add: numeral_eq_Suc)

lemma sha1Extend_numeral:
  "sha1Extend (numeral k) ws =
     sha1Extend (pred_numeral k) (rotl32 1 (ws ! 2 XOR ws ! 7 XOR ws ! 13 XOR ws ! 15) # ws)"
  by (simp add: numeral_eq_Suc)

lemma sha1Blocks_numeral:
  "sha1Blocks (numeral k) s bs = sha1Blocks (pred_numeral k) (sha1Block s (take 64 bs)) (drop 64 bs)"
  by (simp add: numeral_eq_Suc)

lemma replicate_numeral_Cons: "replicate (numeral k) x = x # replicate (pred_numeral k) x"
  by (simp add: numeral_eq_Suc)

lemmas sha1_eval =
  sha1Sum_def sha1Pad_def putUint64_def putUint32_def replicate_numeral_Cons sha1Words_numeral
  be32_def sha1Extend_numeral rotl32_def add32_def not32_def sha1Blocks_numeral sha1Block_def
  sha1F_def sha1K_def

text \<open>The model of SHA-1 on the test vector of FIPS 180, and of base64 on those of RFC 4648.\<close>

lemma sha1Sum_abc:
  "sha1Sum (bytesOf ''abc'') =
     [0xA9, 0x99, 0x3E, 0x36, 0x47, 0x06, 0x81, 0x6A, 0xBA, 0x3E,
      0x25, 0x71, 0x78, 0x50, 0xC2, 0x6C, 0x9C, 0xD0, 0xD8, 0x9D]"
  by (simp add: bytesOf_def sha1_eval)

lemma EncodeToString_rfc4648:
  "EncodeToString (bytesOf ''f'') = ''Zg==''"
  "EncodeToString (bytesOf ''fo'') = ''Zm8=''"
  "EncodeToString (bytesOf ''foobar'') = ''Zm9vYmFy''"
  by (simp_all add: bytesOf_def b64_def encodeStd_def)

lemma length_digestBytes: "length (digestBytes s) = 20"
  by (cases s) (simp add: putUint32_def)

lemma accept_example:
  "computeAcceptKey ''dGhlIHNhbXBsZSBub25jZQ=='' = ''s3pPLMBiTxaQ9kYGzzhZRbK+xOo=''"
  by (simp add: computeAcceptKey_def hashSum_def hashWrite_def sha1New_def bytesOf_def
      websocketGUID_def encodeStd_def b64_def sha1_eval)

text \<open>
  C8. \<^verbatim>\<open>computeAcceptKey\<close> is the base64 encoding of the SHA-1 digest, 20 bytes long, of the
  key followed by the fixed string 258EAFA5-E914-47DA-95CA-C5AB0DC85B11, and for the key
  \<open>dGhlIHNhbXBsZSBub25jZQ==\<close> it is \<open>s3pPLMBiTxaQ9kYGzzhZRbK+xOo=\<close>.
\<close>

theorem computeAcceptKey_rfc6455:
  "computeAcceptKey key = EncodeToString (sha1Sum (bytesOf (key @ websocketGUID))) \<and>
   length (sha1Sum (bytesOf (key @ websocketGUID))) = 20 \<and>
   websocketGUID = ''258EAFA5-E914-47DA-95CA-C5AB0DC85B11'' \<and>
   computeAcceptKey ''dGhlIHNhbXBsZSBub25jZQ=='' = ''s3pPLMBiTxaQ9kYGzzhZRbK+xOo=''"
  using accept_example
  by (simp add: computeAcceptKey_def hashSum_def hashWrite_def sha1New_def bytesOf_def
      sha1Sum_def length_digestBytes websocketGUID_def)

text \<open>The handshake of the spec's scenario 1: status 101 and the three response headers,
  whatever the Unicode part of the lower-casing is.\<close>

lemma Upgrade_handshake_example:
  "Upgrade u \<lparr>rwHeader = Map.empty, rwStatus = None, rwHijacker = True, rwHijackFails = False,
             rwFlushFails = False, rwInbound = []\<rparr>
     \<lparr>Method = ''GET'',
      Header = (\<lambda>_. [])(''Upgrade'' := ''websocket'', ''Connection'' := ''Upgrade'',
                           ''Sec-WebSocket-Version'' := ''13'',
                           ''Sec-WebSocket-Key'' := ''dGhlIHNhbXBsZSBub25jZQ=='')\<rparr> None
   = (\<lparr>rwHeader = [''Upgrade'' \<mapsto> ''websocket'', ''Connection'' \<mapsto> ''Upgrade'',
                     ''Sec-WebSocket-Accept'' \<mapsto> ''s3pPLMBiTxaQ9kYGzzhZRbK+xOo=''],
       rwStatus = Some 101, rwHijacker = True, rwHijackFails = False, rwFlushFails = False,
       rwInbound = []\<rparr>,
      Inr (newConn (Some False) [] \<lparr>out = [], failing = False\<rparr> True))"
  by (simp add: Upgrade_def Let_def accept_example headerContainsToken_def ToLower_def
      isASCII_def hasUpper_def lowerASCII_def trim_eval
      negotiateSubprotocol_def defaultReadBufferSize_def defaultWriteBufferSize_def)

end
